theory Spec2Isabelle
  imports Complex_Main "HOL-Library.Product_Lexorder" "HOL-Library.Multiset"
    "HOL-Library.Finite_Map"
begin

section \<open>The sliding-window rate limiter\<close>

text \<open>
  \<^verbatim>\<open>RateLimiter\<close> of \<^verbatim>\<open>exhaust_leaderboard.py\<close> keeps two deques of admission
  timestamps, oldest first. The deques are lists here (\<^verbatim>\<open>popleft\<close> drops the head,
  \<^verbatim>\<open>append\<close> adds at the end). Python floats that measure time are rationals: only their
  order, sums and differences are used. The four module constants \<^verbatim>\<open>ONE_SEC_LIMIT\<close>,
  \<^verbatim>\<open>ONE_SEC_WINDOW\<close>, \<^verbatim>\<open>TWO_MIN_LIMIT\<close>, \<^verbatim>\<open>TWO_MIN_WINDOW\<close> are the fields of a
  record, so that other limits can be stated; \<open>default_limits\<close> holds the values of the
  source.
\<close>

record limits =
  ONE_SEC_LIMIT :: nat
  ONE_SEC_WINDOW :: rat
  TWO_MIN_LIMIT :: nat
  TWO_MIN_WINDOW :: rat

definition default_limits :: limits where
  "default_limits =
     \<lparr>ONE_SEC_LIMIT = 20, ONE_SEC_WINDOW = 1, TWO_MIN_LIMIT = 100, TWO_MIN_WINDOW = 120\<rparr>"

record RateLimiter =
  w1 :: "rat list"
  w2 :: "rat list"

definition init_limiter :: RateLimiter where
  "init_limiter = \<lparr>w1 = [], w2 = []\<rparr>"

text \<open>\<^verbatim>\<open>_prune\<close>: each \<^verbatim>\<open>while\<close> loop pops the head as long as it is older than the window.\<close>

definition prune :: "limits \<Rightarrow> rat \<Rightarrow> RateLimiter \<Rightarrow> RateLimiter" where
  "prune L now s =
     \<lparr>w1 = dropWhile (\<lambda>t. now - t > ONE_SEC_WINDOW L) (w1 s),
      w2 = dropWhile (\<lambda>t. now - t > TWO_MIN_WINDOW L) (w2 s)\<rparr>"

text \<open>
  The sleep computed when no slot is free (lines 79 to 81): \<^verbatim>\<open>sleep1\<close> and \<^verbatim>\<open>sleep2\<close> are
  taken from every non-empty deque, and the result is the maximum of both and of the floor
  \<^verbatim>\<open>0.01\<close>.
\<close>

definition sleep_for :: "limits \<Rightarrow> rat \<Rightarrow> RateLimiter \<Rightarrow> rat" where
  "sleep_for L now s =
     (let sleep1 = (if w1 s \<noteq> [] then hd (w1 s) + ONE_SEC_WINDOW L - now else 0);
          sleep2 = (if w2 s \<noteq> [] then hd (w2 s) + TWO_MIN_WINDOW L - now else 0)
      in max (max sleep1 sleep2) (1 / 100))"

text \<open>
  One pass through the body of \<^verbatim>\<open>while True\<close> in \<^verbatim>\<open>wait_for_slot\<close>, at the clock
  reading \<open>now\<close>: either a slot is taken (\<open>Inr\<close>, the state with \<open>now\<close> appended to both
  deques) or the caller sleeps (\<open>Inl\<close>, the duration and the pruned state).
\<close>

definition try_slot :: "limits \<Rightarrow> rat \<Rightarrow> RateLimiter \<Rightarrow> (rat \<times> RateLimiter) + RateLimiter" where
  "try_slot L now s =
     (let s' = prune L now s in
      if length (w1 s') < ONE_SEC_LIMIT L \<and> length (w2 s') < TWO_MIN_LIMIT L
      then Inr \<lparr>w1 = w1 s' @ [now], w2 = w2 s' @ [now]\<rparr>
      else Inl (sleep_for L now s', s'))"

text \<open>
  \<^verbatim>\<open>wait_for_slot\<close>. The clock is the list of values that successive calls of
  \<^verbatim>\<open>time.time()\<close> return; every pass of the loop reads one. The call returns
  \<open>Some (t, sleeps, rest, s')\<close>: the admission timestamp, the durations slept, the
  readings left for later calls and the new state. It gives \<open>None\<close> when the readings run
  out before a slot is free.
\<close>

fun wait_for_slot ::
  "limits \<Rightarrow> rat list \<Rightarrow> RateLimiter \<Rightarrow> (rat \<times> rat list \<times> rat list \<times> RateLimiter) option" where
  "wait_for_slot L [] s = None"
| "wait_for_slot L (now # clock) s =
     (case try_slot L now s of
        Inr s' \<Rightarrow> Some (now, [], clock, s')
      | Inl (d, s') \<Rightarrow>
          (case wait_for_slot L clock s' of
             None \<Rightarrow> None
           | Some (t, ds, rest, s'') \<Rightarrow> Some (t, d # ds, rest, s'')))"

text \<open>
  \<open>n\<close> successive calls of \<^verbatim>\<open>wait_for_slot\<close> on one limiter: the admission timestamps of
  the calls that returned, in order.
\<close>

fun admissions :: "limits \<Rightarrow> nat \<Rightarrow> rat list \<Rightarrow> RateLimiter \<Rightarrow> rat list" where
  "admissions L 0 clock s = []"
| "admissions L (Suc n) clock s =
     (case wait_for_slot L clock s of
        None \<Rightarrow> []
      | Some (t, ds, rest, s') \<Rightarrow> t # admissions L n rest s')"

text \<open>The state of the limiter after the same \<open>n\<close> calls.\<close>

fun limiter_after :: "limits \<Rightarrow> nat \<Rightarrow> rat list \<Rightarrow> RateLimiter \<Rightarrow> RateLimiter" where
  "limiter_after L 0 clock s = s"
| "limiter_after L (Suc n) clock s =
     (case wait_for_slot L clock s of
        None \<Rightarrow> s
      | Some (t, ds, rest, s') \<Rightarrow> limiter_after L n rest s')"

text \<open>The number of timestamps of \<open>ts\<close> in the closed interval from \<open>a\<close> to \<open>a + d\<close>.\<close>

definition in_window :: "rat \<Rightarrow> rat \<Rightarrow> rat list \<Rightarrow> nat" where
  "in_window a d ts = length (filter (\<lambda>t. a \<le> t \<and> t \<le> a + d) ts)"

text \<open>
  The invariant behind the guarantee. \<open>adm\<close> is the list of all admission timestamps so
  far and \<open>lo\<close> the last clock reading: the timestamps are in order and not later than
  \<open>lo\<close>, each deque holds exactly the timestamps that are not older than its window, and
  no closed interval as long as a window holds more timestamps than the limit.
\<close>

definition limiter_inv :: "limits \<Rightarrow> rat \<Rightarrow> rat list \<Rightarrow> RateLimiter \<Rightarrow> bool" where
  "limiter_inv L lo adm s \<longleftrightarrow>
     sorted adm \<and> (\<forall>t\<in>set adm. t \<le> lo) \<and>
     w1 s = filter (\<lambda>t. lo - t \<le> ONE_SEC_WINDOW L) adm \<and>
     w2 s = filter (\<lambda>t. lo - t \<le> TWO_MIN_WINDOW L) adm \<and>
     (\<forall>a. in_window a (ONE_SEC_WINDOW L) adm \<le> ONE_SEC_LIMIT L) \<and>
     (\<forall>a. in_window a (TWO_MIN_WINDOW L) adm \<le> TWO_MIN_LIMIT L)"

section \<open>Values, exceptions and the Python built-ins\<close>

text \<open>
  A decoded JSON value. A \<^verbatim>\<open>dict\<close> is an association list in insertion order, looked up
  with \<open>map_of\<close>; \<^verbatim>\<open>int\<close> and \<^verbatim>\<open>float\<close> are one constructor, since the program only
  compares numbers and tests them for zero. A \<open>string\<close> is a list of 8-bit characters: a
  character of the source outside ASCII is written by its UTF-8 bytes.
\<close>

datatype json =
    JNull
  | JBool bool
  | JNum rat
  | JStr string
  | JList "json list"
  | JObj "(string \<times> json) list"

text \<open>The exceptions the program raises or meets; all of them derive from \<^verbatim>\<open>Exception\<close>.\<close>

datatype exn =
    RuntimeError string
  | ValueError
  | KeyError string
  | TypeError
  | AttributeError
  | OverflowError
  | RequestException string

text \<open>
  Three built-ins are parameters of the model, since they work on floating-point numbers or
  on Python's own rendering of values:
  \<^item> \<open>py_float s\<close> is \<^verbatim>\<open>float(s)\<close> on a header value: \<open>Inr r\<close> when it is
    the finite number \<open>r\<close>, \<open>Inl e\<close> when the conversion (or the sleep on a value that is not
    finite) raises \<open>e\<close>;
  \<^item> \<open>py_str v\<close> is \<^verbatim>\<open>str(v)\<close>, as an f-string inserts a value;
  \<^item> \<open>py_pct n d\<close> is \<^verbatim>\<open>f"{(n / d) * 100:.0f}"\<close>.
\<close>

record builtins =
  py_float :: "string \<Rightarrow> exn + rat"
  py_str :: "json \<Rightarrow> string"
  py_pct :: "int \<Rightarrow> int \<Rightarrow> string"

text \<open>\<^verbatim>\<open>str\<close> of an \<^verbatim>\<open>int\<close>: its decimal digits.\<close>

fun str_nat :: "nat \<Rightarrow> string" where
  "str_nat n = (if n < 10 then [''0123456789'' ! n] else str_nat (n div 10) @ [''0123456789'' ! (n mod 10)])"

definition str_int :: "int \<Rightarrow> string" where
  "str_int i = (if i < 0 then CHR ''-'' # str_nat (nat (- i)) else str_nat (nat i))"

text \<open>Truth value of a value, as \<^verbatim>\<open>if v\<close>, \<^verbatim>\<open>not v\<close> and \<^verbatim>\<open>a or b\<close> test it.\<close>

fun truthy :: "json \<Rightarrow> bool" where
  "truthy JNull = False"
| "truthy (JBool b) = b"
| "truthy (JNum r) = (r \<noteq> 0)"
| "truthy (JStr s) = (s \<noteq> [])"
| "truthy (JList xs) = (xs \<noteq> [])"
| "truthy (JObj kvs) = (kvs \<noteq> [])"

definition py_or :: "json \<Rightarrow> json \<Rightarrow> json" where
  "py_or a b = (if truthy a then a else b)"

text \<open>
  \<^verbatim>\<open>==\<close> on decoded values: numbers and booleans compare by value, dicts by their key
  sets and values whatever the order, values of different kinds are unequal. Both sides
  are brought to a canonical form, where this is equality.
\<close>

datatype cjson =
    CNull
  | CNum rat
  | CStr string
  | CList "cjson list"
  | CObj "(string, cjson) fmap"

primrec canon :: "json \<Rightarrow> cjson" where
  "canon JNull = CNull"
| "canon (JBool b) = CNum (if b then 1 else 0)"
| "canon (JNum r) = CNum r"
| "canon (JStr s) = CStr s"
| "canon (JList xs) = CList (map canon xs)"
| "canon (JObj kvs) = CObj (fmap_of_list (map (map_prod id canon) kvs))"

definition py_eq :: "json \<Rightarrow> json \<Rightarrow> bool" where
  "py_eq a b \<longleftrightarrow> canon a = canon b"

text \<open>
  \<^verbatim>\<open>d.get(k, default)\<close> and \<^verbatim>\<open>d[k]\<close>. On a value that is not a dict the first raises
  \<^verbatim>\<open>AttributeError\<close> and the second \<^verbatim>\<open>TypeError\<close>; \<^verbatim>\<open>d.get(k)\<close> has the default
  \<^verbatim>\<open>None\<close>.
\<close>

definition py_get :: "json \<Rightarrow> string \<Rightarrow> json \<Rightarrow> exn + json" where
  "py_get d k dflt =
     (case d of
        JObj kvs \<Rightarrow> (case map_of kvs k of Some v \<Rightarrow> Inr v | None \<Rightarrow> Inr dflt)
      | _ \<Rightarrow> Inl AttributeError)"

definition py_item :: "json \<Rightarrow> string \<Rightarrow> exn + json" where
  "py_item d k =
     (case d of
        JObj kvs \<Rightarrow> (case map_of kvs k of Some v \<Rightarrow> Inr v | None \<Rightarrow> Inl (KeyError k))
      | _ \<Rightarrow> Inl TypeError)"

text \<open>
  The characters of a string: in UTF-8 a character is a byte that is no continuation byte
  (\<open>0x80\<close> to \<open>0xBF\<close>), with the continuation bytes that follow it. \<^verbatim>\<open>len\<close> and the
  iteration over a \<^verbatim>\<open>str\<close> count these.
\<close>

definition is_continuation :: "char \<Rightarrow> bool" where
  "is_continuation c \<longleftrightarrow> 128 \<le> (of_char c :: nat) \<and> (of_char c :: nat) < 192"

function chars_of :: "string \<Rightarrow> string list" where
  "chars_of [] = []"
| "chars_of (c # cs) = (c # takeWhile is_continuation cs) # chars_of (dropWhile is_continuation cs)"
  by pat_completeness auto
termination
  by (relation "measure length") (auto simp: length_dropWhile_le less_Suc_eq_le)

text \<open>
  The elements a \<^verbatim>\<open>for\<close> loop or a generator visits: those of a list, the keys of a dict,
  the characters of a string; other values are not iterable.
\<close>

definition py_iter :: "json \<Rightarrow> exn + json list" where
  "py_iter v =
     (case v of
        JList xs \<Rightarrow> Inr xs
      | JObj kvs \<Rightarrow> Inr (map (\<lambda>kv. JStr (fst kv)) kvs)
      | JStr s \<Rightarrow> Inr (map JStr (chars_of s))
      | _ \<Rightarrow> Inl TypeError)"

section \<open>The retrying client: \<^verbatim>\<open>RiotClient._get\<close>\<close>

text \<open>
  What \<^verbatim>\<open>_get\<close> reads of a response: the status code, the header
  \<^verbatim>\<open>Retry-After\<close> (\<open>None\<close> when \<^verbatim>\<open>headers.get\<close> finds none), the outcome of
  \<^verbatim>\<open>resp.json()\<close> (\<open>None\<close> when it raises) and \<^verbatim>\<open>resp.text\<close>.
\<close>

record response =
  status_code :: int
  retry_after :: "string option"
  json_body :: "json option"
  resp_text :: string






definition exhausted_message :: "string \<Rightarrow> string" where
  "exhausted_message url = ''GET '' @ url @ '' exhausted retries''"

text \<open>
  The message of the error on a status that is neither retried nor a success (lines 154 to
  158): \<^verbatim>\<open>err\<close> is the decoded body, or a dict around \<^verbatim>\<open>resp.text\<close> when decoding fails.
\<close>

definition failed_message :: "builtins \<Rightarrow> string \<Rightarrow> response \<Rightarrow> string" where
  "failed_message B url resp =
     (let err = (case json_body resp of
                   Some j \<Rightarrow> j
                 | None \<Rightarrow> JObj [(''status'', JObj [(''message'', JStr (resp_text resp))])])
      in ''GET '' @ url @ '' failed ['' @ str_int (status_code resp) @ '']: '' @ py_str B err)"




section \<open>Resolution and aggregation\<close>

text \<open>
  The endpoint methods of \<^verbatim>\<open>RiotClient\<close> that the two functions below call. Each is one
  call of \<^verbatim>\<open>_get\<close>; here its outcome is given as a function of the arguments.
\<close>

record client =
  summoner_by_id :: "json \<Rightarrow> exn + json"
  match_ids_by_puuid :: "json \<Rightarrow> int \<Rightarrow> int \<Rightarrow> exn + json"
  match_by_id :: "json \<Rightarrow> exn + json"

definition MAX_MATCHES_PER_PLAYER :: int where "MAX_MATCHES_PER_PLAYER = 20"
definition EXHAUST_ID :: json where "EXHAUST_ID = JNum 3"
definition ARAM_QUEUE_ID :: int where "ARAM_QUEUE_ID = 450"
definition SLEEP_BETWEEN_PLAYERS :: rat where "SLEEP_BETWEEN_PLAYERS = 1 / 20"

definition missing_ids_message :: string where
  "missing_ids_message = ''Participant missing both puuid and encryptedSummonerId.''"

text \<open>\<^verbatim>\<open>d.get(k)\<close> on a dict: \<^verbatim>\<open>None\<close> when the key is missing.\<close>

definition dict_get :: "(string \<times> json) list \<Rightarrow> string \<Rightarrow> json" where
  "dict_get kvs k = (case map_of kvs k of Some v \<Rightarrow> v | None \<Rightarrow> JNull)"

text \<open>
  Line 222:
  \<^verbatim>\<open>participant.get("summonerId") or participant.get("encryptedSummonerId") or participant.get("id")\<close>.
\<close>

definition enc_id_of :: "(string \<times> json) list \<Rightarrow> json" where
  "enc_id_of participant =
     py_or (py_or (dict_get participant ''summonerId'') (dict_get participant ''encryptedSummonerId''))
       (dict_get participant ''id'')"

text \<open>
  Line 218:
  \<^verbatim>\<open>participant.get("riotId") or participant.get("summonerName") or "Unknown"\<close>.
\<close>

definition display_name_of :: "(string \<times> json) list \<Rightarrow> json" where
  "display_name_of participant =
     py_or (py_or (dict_get participant ''riotId'') (dict_get participant ''summonerName''))
       (JStr ''Unknown'')"

text \<open>The part of \<^verbatim>\<open>ensure_puuid\<close> after \<^verbatim>\<open>if puuid: return\<close> (lines 222 to 229).\<close>

definition resolve_legacy :: "client \<Rightarrow> (string \<times> json) list \<Rightarrow> json \<Rightarrow> exn + (json \<times> json)" where
  "resolve_legacy c participant display_name =
     (let enc_id = enc_id_of participant
      in if \<not> truthy enc_id then Inl (RuntimeError missing_ids_message)
         else
           (case summoner_by_id c enc_id of
              Inl e \<Rightarrow> Inl e
            | Inr summ \<Rightarrow>
                (case py_item summ ''puuid'' of
                   Inl e \<Rightarrow> Inl e
                 | Inr puuid \<Rightarrow>
                     if py_eq display_name (JStr ''Unknown'')
                     then (case py_get summ ''name'' (JStr ''Unknown'') of
                             Inl e \<Rightarrow> Inl e
                           | Inr n \<Rightarrow> Inr (puuid, n))
                     else Inr (puuid, display_name))))"

text \<open>
  \<^verbatim>\<open>ensure_puuid\<close>. On a participant that is not a dict the first \<^verbatim>\<open>.get\<close> raises.
\<close>

definition ensure_puuid :: "client \<Rightarrow> json \<Rightarrow> exn + (json \<times> json)" where
  "ensure_puuid c participant =
     (case participant of
        JObj kvs \<Rightarrow>
          (let puuid = dict_get kvs ''puuid'';
               display_name = display_name_of kvs
           in if truthy puuid then Inr (puuid, display_name)
              else resolve_legacy c kvs display_name)
      | _ \<Rightarrow> Inl AttributeError)"

text \<open>
  \<^verbatim>\<open>next((p for p in participants if p.get("puuid") == puuid), None)\<close> on the elements of
  \<^verbatim>\<open>participants\<close>: the first element whose \<^verbatim>\<open>puuid\<close> matches, \<^verbatim>\<open>None\<close> when there is
  none. The generator stops at the first match, so only the elements before it are asked
  for \<^verbatim>\<open>.get\<close>.
\<close>

fun find_me :: "json \<Rightarrow> json list \<Rightarrow> exn + json" where
  "find_me puuid [] = Inr JNull"
| "find_me puuid (p # ps) =
     (case py_get p ''puuid'' JNull of
        Inl e \<Rightarrow> Inl e
      | Inr v \<Rightarrow> if py_eq v puuid then Inr p else find_me puuid ps)"

text \<open>
  One match of the loop of \<^verbatim>\<open>count_exhaust_for_player\<close> (lines 244 to 255): \<open>Inr None\<close>
  when the match is skipped, \<open>Inr (Some b)\<close> when the player's entry was found, \<open>b\<close>
  telling whether one of its two slots is Exhaust.
\<close>

definition examine_match :: "client \<Rightarrow> json \<Rightarrow> json \<Rightarrow> exn + bool option" where
  "examine_match c puuid mid =
     (case match_by_id c mid of
        Inl e \<Rightarrow> Inl e
      | Inr data \<Rightarrow>
     (case py_get data ''info'' (JObj []) of
        Inl e \<Rightarrow> Inl e
      | Inr info \<Rightarrow>
     (case py_get info ''participants'' (JList []) of
        Inl e \<Rightarrow> Inl e
      | Inr participants \<Rightarrow>
     (case py_iter participants of
        Inl e \<Rightarrow> Inl e
      | Inr ps \<Rightarrow>
     (case find_me puuid ps of
        Inl e \<Rightarrow> Inl e
      | Inr me \<Rightarrow>
          if \<not> truthy me then Inr None
          else
     (case py_get me ''summoner1Id'' JNull of
        Inl e \<Rightarrow> Inl e
      | Inr s1 \<Rightarrow>
     (case py_get me ''summoner2Id'' JNull of
        Inl e \<Rightarrow> Inl e
      | Inr s2 \<Rightarrow> Inr (Some (py_eq s1 EXHAUST_ID \<or> py_eq s2 EXHAUST_ID)))))))))"

fun count_loop :: "client \<Rightarrow> json \<Rightarrow> json list \<Rightarrow> int \<Rightarrow> int \<Rightarrow> exn + (int \<times> int)" where
  "count_loop c puuid [] exhaust_count tot = Inr (exhaust_count, tot)"
| "count_loop c puuid (mid # mids) exhaust_count tot =
     (case examine_match c puuid mid of
        Inl e \<Rightarrow> Inl e
      | Inr None \<Rightarrow> count_loop c puuid mids exhaust_count tot
      | Inr (Some used) \<Rightarrow>
          count_loop c puuid mids (if used then exhaust_count + 1 else exhaust_count) (tot + 1))"

definition count_exhaust_for_player :: "client \<Rightarrow> json \<Rightarrow> int \<Rightarrow> exn + (int \<times> int)" where
  "count_exhaust_for_player c puuid max_matches =
     (case match_ids_by_puuid c puuid max_matches ARAM_QUEUE_ID of
        Inl e \<Rightarrow> Inl e
      | Inr match_ids \<Rightarrow>
          if \<not> truthy match_ids then Inr (0, 0)
          else (case py_iter match_ids of
                  Inl e \<Rightarrow> Inl e
                | Inr mids \<Rightarrow> count_loop c puuid mids 0 0))"

text \<open>
  The words of the tally, for a player identifier that is a string. The entry of the player
  in a match record is the first element of \<^verbatim>\<open>info.participants\<close> that is a dict whose
  \<^verbatim>\<open>puuid\<close> is the identifier; it took Exhaust when one of its two slots holds 3. A match
  record is well formed when it is a dict, its \<^verbatim>\<open>info\<close>, if any, is a dict, and the
  \<^verbatim>\<open>participants\<close> of that, if any, are a list of dicts. \<open>found_entries\<close> are the
  entries found in the matches fetched, in order.
\<close>

fun first_entry :: "string \<Rightarrow> json list \<Rightarrow> (string \<times> json) list option" where
  "first_entry pid [] = None"
| "first_entry pid (JObj e # ps) =
     (if map_of e ''puuid'' = Some (JStr pid) then Some e else first_entry pid ps)"
| "first_entry pid (p # ps) = first_entry pid ps"

definition player_entry :: "string \<Rightarrow> json \<Rightarrow> (string \<times> json) list option" where
  "player_entry pid data =
     (case data of
        JObj d \<Rightarrow>
          (case map_of d ''info'' of
             Some (JObj i) \<Rightarrow>
               (case map_of i ''participants'' of
                  Some (JList ps) \<Rightarrow> first_entry pid ps
                | _ \<Rightarrow> None)
           | _ \<Rightarrow> None)
      | _ \<Rightarrow> None)"

definition took_exhaust :: "(string \<times> json) list \<Rightarrow> bool" where
  "took_exhaust e \<longleftrightarrow>
     map_of e ''summoner1Id'' = Some (JNum 3) \<or> map_of e ''summoner2Id'' = Some (JNum 3)"

definition is_dict :: "json \<Rightarrow> bool" where
  "is_dict v = (case v of JObj kvs \<Rightarrow> True | _ \<Rightarrow> False)"

definition well_formed_match :: "json \<Rightarrow> bool" where
  "well_formed_match data =
     (case data of
        JObj d \<Rightarrow>
          (case map_of d ''info'' of
             None \<Rightarrow> True
           | Some (JObj i) \<Rightarrow>
               (case map_of i ''participants'' of
                  None \<Rightarrow> True
                | Some (JList ps) \<Rightarrow> list_all is_dict ps
                | Some _ \<Rightarrow> False)
           | Some _ \<Rightarrow> False)
      | _ \<Rightarrow> False)"

definition found_entries :: "client \<Rightarrow> string \<Rightarrow> json list \<Rightarrow> (string \<times> json) list list" where
  "found_entries c pid mids =
     List.map_filter
       (\<lambda>mid. case match_by_id c mid of Inl e \<Rightarrow> None | Inr data \<Rightarrow> player_entry pid data) mids"

section \<open>The report\<close>

text \<open>
  The library functions that the report calls are parameters of the model:
  \<^item> \<open>combining ch\<close> and \<open>east_asian_width ch\<close> are the functions of that name of
    \<^verbatim>\<open>unicodedata\<close>, on a string of one character;
  \<^item> \<open>int_truediv n d\<close> is \<^verbatim>\<open>n / d\<close> on two \<^verbatim>\<open>int\<close>s with \<open>d \<noteq> 0\<close>: the float that
    Python computes, which is a rational number, or \<^verbatim>\<open>OverflowError\<close> when the quotient
    is too large for a float.
\<close>

record stdlib =
  combining :: "string \<Rightarrow> nat"
  east_asian_width :: "string \<Rightarrow> string"
  int_truediv :: "int \<Rightarrow> int \<Rightarrow> exn + rat"

text \<open>
  An f-string inserts a \<^verbatim>\<open>str\<close> as it is and any other value through \<^verbatim>\<open>str\<close>.
\<close>

definition py_format :: "builtins \<Rightarrow> json \<Rightarrow> string" where
  "py_format B v = (case v of JStr s \<Rightarrow> s | _ \<Rightarrow> py_str B v)"

text \<open>\<^verbatim>\<open>_char_width\<close> (lines 94 to 100), on a string of one character.\<close>

definition char_width :: "stdlib \<Rightarrow> string \<Rightarrow> nat" where
  "char_width U ch =
     (if combining U ch \<noteq> 0 then 0
      else if east_asian_width U ch = ''F'' \<or> east_asian_width U ch = ''W'' then 2 else 1)"

text \<open>
  \<^verbatim>\<open>display_width(s)\<close>, \<^verbatim>\<open>sum(_char_width(ch) for ch in s)\<close>. The caller may pass a
  display name that is no \<^verbatim>\<open>str\<close>: a value that is not iterable raises \<^verbatim>\<open>TypeError\<close>,
  and so does \<^verbatim>\<open>unicodedata\<close> on an element of a list, or on a key of a dict, that is
  not a string of one character.
\<close>

definition one_char :: "json \<Rightarrow> bool" where
  "one_char v = (case v of JStr s \<Rightarrow> length (chars_of s) = 1 | _ \<Rightarrow> False)"

definition elem_width :: "stdlib \<Rightarrow> json \<Rightarrow> nat" where
  "elem_width U v = (case v of JStr s \<Rightarrow> char_width U s | _ \<Rightarrow> 0)"

definition display_width :: "stdlib \<Rightarrow> json \<Rightarrow> exn + nat" where
  "display_width U s =
     (case s of
        JStr t \<Rightarrow> Inr (sum_list (map (char_width U) (chars_of t)))
      | JList xs \<Rightarrow>
          if list_all one_char xs then Inr (sum_list (map (elem_width U) xs)) else Inl TypeError
      | JObj kvs \<Rightarrow>
          if list_all (\<lambda>kv. one_char (JStr (fst kv))) kvs
          then Inr (sum_list (map (\<lambda>kv. char_width U (fst kv)) kvs))
          else Inl TypeError
      | _ \<Rightarrow> Inl TypeError)"

text \<open>
  \<^verbatim>\<open>pad_display(s, width)\<close> (lines 105 to 110): \<^verbatim>\<open>s + " " * (width - w)\<close> raises
  \<^verbatim>\<open>TypeError\<close> when \<open>s\<close> is a list or a dict.
\<close>

definition pad_display :: "stdlib \<Rightarrow> json \<Rightarrow> nat \<Rightarrow> exn + json" where
  "pad_display U s width =
     (case display_width U s of
        Inl e \<Rightarrow> Inl e
      | Inr w \<Rightarrow>
          if w \<ge> width then Inr s
          else (case s of
                  JStr t \<Rightarrow> Inr (JStr (t @ replicate (width - w) CHR '' ''))
                | _ \<Rightarrow> Inl TypeError))"

text \<open>\<^verbatim>\<open>s.rjust(width)\<close> of a \<^verbatim>\<open>str\<close>.\<close>

definition rjust :: "string \<Rightarrow> nat \<Rightarrow> string" where
  "rjust s width = replicate (width - length (chars_of s)) CHR '' '' @ s"

text \<open>
  \<^verbatim>\<open>format_pct\<close>. The marker for no data is the em dash U+2014, here its three UTF-8
  bytes. When \<open>d\<close> is positive, \<^verbatim>\<open>n / d\<close> has been computed for the sort key of the same
  row before, and has not raised.
\<close>

definition no_data_mark :: string where
  "no_data_mark = [CHR 0xE2, CHR 0x80, CHR 0x94]"

definition format_pct :: "builtins \<Rightarrow> int \<Rightarrow> int \<Rightarrow> string" where
  "format_pct B n d = (if d \<le> 0 then no_data_mark else py_pct B n d @ ''%'')"

text \<open>
  A row is \<^verbatim>\<open>(display_name, exhaust_count, total_tracked)\<close>. The sort key of
  \<^verbatim>\<open>print_leaderboard\<close> is \<^verbatim>\<open>(r[1], (r[1] / r[2]) if r[2] else 0.0)\<close>, a pair that Python
  compares lexicographically; the division may raise.
\<close>

type_synonym row = "json \<times> int \<times> int"

definition sort_key_row :: "stdlib \<Rightarrow> row \<Rightarrow> exn + (int \<times> rat)" where
  "sort_key_row U r =
     (if snd (snd r) \<noteq> 0
      then (case int_truediv U (fst (snd r)) (snd (snd r)) of
              Inl e \<Rightarrow> Inl e
            | Inr q \<Rightarrow> Inr (fst (snd r), q))
      else Inr (fst (snd r), 0))"

text \<open>
  \<^verbatim>\<open>sorted(rows, key=..., reverse=True)\<close>. Python computes the key of every row first,
  in order, and an exception of the key leaves \<^verbatim>\<open>sorted\<close>. The sort is stable, and with
  \<^verbatim>\<open>reverse=True\<close> rows with equal keys keep their order: it sorts the reversed list
  upwards by the keys and reverses the result.
\<close>

fun sort_keys :: "stdlib \<Rightarrow> row list \<Rightarrow> exn + (int \<times> rat) list" where
  "sort_keys U [] = Inr []"
| "sort_keys U (r # rs) =
     (case sort_key_row U r of
        Inl e \<Rightarrow> Inl e
      | Inr k \<Rightarrow> (case sort_keys U rs of Inl e \<Rightarrow> Inl e | Inr ks \<Rightarrow> Inr (k # ks)))"

definition sorted_rows :: "stdlib \<Rightarrow> row list \<Rightarrow> exn + row list" where
  "sorted_rows U rows =
     (case sort_keys U rows of
        Inl e \<Rightarrow> Inl e
      | Inr ks \<Rightarrow> Inr (map snd (rev (sort_key fst (rev (zip ks rows))))))"

text \<open>The loop over \<^verbatim>\<open>enumerate(sorted_rows)\<close> that builds \<^verbatim>\<open>display_rows\<close>.\<close>

definition display_rows :: "builtins \<Rightarrow> row list \<Rightarrow> row list" where
  "display_rows B srows =
     map (\<lambda>(i, (name, ex_cnt, tot)).
            ((if i = 0 then JStr (''WINNER: '' @ py_format B name) else name), ex_cnt, tot))
       (enumerate 0 srows)"

text \<open>
  \<^verbatim>\<open>name_w\<close> (line 287): the display widths of the names are computed in order, and the
  first that raises leaves \<^verbatim>\<open>print_leaderboard\<close> before anything is printed.
\<close>

fun display_widths :: "stdlib \<Rightarrow> row list \<Rightarrow> exn + nat list" where
  "display_widths U [] = Inr []"
| "display_widths U (r # rs) =
     (case display_width U (fst r) of
        Inl e \<Rightarrow> Inl e
      | Inr w \<Rightarrow> (case display_widths U rs of Inl e \<Rightarrow> Inl e | Inr ws \<Rightarrow> Inr (w # ws)))"

definition header_player :: string where
  "header_player = ''Player''"

definition name_width :: "stdlib \<Rightarrow> row list \<Rightarrow> exn + nat" where
  "name_width U drows =
     (case display_width U (JStr header_player) of
        Inl e \<Rightarrow> Inl e
      | Inr h \<Rightarrow>
          (case display_widths U drows of
             Inl e \<Rightarrow> Inl e
           | Inr ws \<Rightarrow> Inr (max h (case ws of [] \<Rightarrow> 12 | w # ws' \<Rightarrow> fold max ws' w))))"

definition exhaust_w :: nat where "exhaust_w = max (length ''Exhausts'') 8"
definition pct_w :: nat where "pct_w = max (length ''% Exhaust'') 9"
definition games_w :: nat where "games_w = max (length ''Games'') 5"

text \<open>
  A line of the table, as the two f-strings of lines 296 to 310 build it from the padded
  first cell and the three other cells.
\<close>

definition table_line :: "builtins \<Rightarrow> json \<Rightarrow> string \<Rightarrow> string \<Rightarrow> string \<Rightarrow> string" where
  "table_line B padded c2 c3 c4 =
     py_format B padded @ ''  '' @ rjust c2 exhaust_w @ ''  '' @ rjust c3 pct_w @ ''  '' @ rjust c4 games_w"

text \<open>
  The loop that prints the rows (lines 303 to 310) and the rule after it: the lines
  printed, and the exception that ended the loop, if any.
\<close>

fun print_rows :: "builtins \<Rightarrow> stdlib \<Rightarrow> nat \<Rightarrow> string \<Rightarrow> row list \<Rightarrow> string list \<times> exn option" where
  "print_rows B U name_w rule [] = ([rule], None)"
| "print_rows B U name_w rule (r # rs) =
     (case pad_display U (fst r) name_w of
        Inl e \<Rightarrow> ([], Some e)
      | Inr padded \<Rightarrow>
          (let k = print_rows B U name_w rule rs
           in (table_line B padded (str_int (fst (snd r)))
                 (format_pct B (fst (snd r)) (snd (snd r))) (str_int (snd (snd r))) # fst k,
               snd k)))"

text \<open>
  \<^verbatim>\<open>print_leaderboard\<close>: the strings it prints, one for each \<^verbatim>\<open>print\<close>, and the
  exception that leaves it, if any. The title starts with a line feed.
\<close>

definition title :: string where
  "title = CHR 0x0A # ''Exhaust Leaderboard (last ARAM matches)''"

definition print_leaderboard :: "builtins \<Rightarrow> stdlib \<Rightarrow> row list \<Rightarrow> string list \<times> exn option" where
  "print_leaderboard B U rows =
     (case sorted_rows U rows of
        Inl e \<Rightarrow> ([], Some e)
      | Inr srows \<Rightarrow>
          (case name_width U (display_rows B srows) of
             Inl e \<Rightarrow> ([], Some e)
           | Inr name_w \<Rightarrow>
               (let rule = replicate (name_w + 2 + exhaust_w + 2 + pct_w + 2 + games_w) CHR ''-''
                in case pad_display U (JStr header_player) name_w of
                     Inl e \<Rightarrow> ([title, rule], Some e)
                   | Inr padded \<Rightarrow>
                       (let k = print_rows B U name_w rule (display_rows B srows)
                        in (title # rule # table_line B padded ''Exhausts'' ''% Exhaust'' ''Games'' #
                              rule # fst k,
                            snd k)))))"

text \<open>
  The two criteria of the ranking: the Exhaust count of a row and its ratio to the games,
  as the sort key divides them (0 for zero games).
\<close>

definition ex_count :: "row \<Rightarrow> int" where
  "ex_count r = fst (snd r)"

definition ratio :: "stdlib \<Rightarrow> row \<Rightarrow> rat" where
  "ratio U r =
     (if snd (snd r) = 0 then 0
      else (case int_truediv U (fst (snd r)) (snd (snd r)) of Inl e \<Rightarrow> 0 | Inr q \<Rightarrow> q))"

text \<open>
  The rows the report is specified for: the names are strings, and no quotient of a count
  by a number of games is too large for a float.
\<close>

definition is_str :: "json \<Rightarrow> bool" where
  "is_str v = (case v of JStr s \<Rightarrow> True | _ \<Rightarrow> False)"

definition divides_ok :: "stdlib \<Rightarrow> row \<Rightarrow> bool" where
  "divides_ok U r =
     (snd (snd r) = 0 \<or>
      (case int_truediv U (fst (snd r)) (snd (snd r)) of Inl e \<Rightarrow> False | Inr q \<Rightarrow> True))"

text \<open>
  The report in the words of its specification, for such rows. \<open>ranked\<close> are the rows in
  descending order of the two criteria; \<open>width_of\<close> is the display width of a name,
  \<open>name_w_of\<close> the width of the first column; \<open>row_text\<close> is the line of a row: its
  name, padded with spaces to that width, and its three cells, each right-justified;
  \<open>header_text\<close> is the line of the column titles and \<open>rule_of\<close> a line of dashes.
\<close>

definition ranked :: "stdlib \<Rightarrow> row list \<Rightarrow> row list" where
  "ranked U rows = rev (sort_key (\<lambda>r. (ex_count r, ratio U r)) (rev rows))"

definition width_of :: "stdlib \<Rightarrow> json \<Rightarrow> nat" where
  "width_of U v = (case display_width U v of Inl e \<Rightarrow> 0 | Inr w \<Rightarrow> w)"

definition name_w_of :: "stdlib \<Rightarrow> row list \<Rightarrow> nat" where
  "name_w_of U drows =
     max (width_of U (JStr header_player))
       (case map (\<lambda>r. width_of U (fst r)) drows of [] \<Rightarrow> 12 | w # ws \<Rightarrow> fold max ws w)"

definition name_text :: "json \<Rightarrow> string" where
  "name_text v = (case v of JStr s \<Rightarrow> s | _ \<Rightarrow> [])"

definition row_text :: "builtins \<Rightarrow> stdlib \<Rightarrow> nat \<Rightarrow> row \<Rightarrow> string" where
  "row_text B U w r =
     name_text (fst r) @ replicate (w - width_of U (fst r)) CHR '' '' @ ''  '' @
     rjust (str_int (fst (snd r))) exhaust_w @ ''  '' @
     rjust (format_pct B (fst (snd r)) (snd (snd r))) pct_w @ ''  '' @
     rjust (str_int (snd (snd r))) games_w"

definition header_text :: "stdlib \<Rightarrow> nat \<Rightarrow> string" where
  "header_text U w =
     header_player @ replicate (w - width_of U (JStr header_player)) CHR '' '' @ ''  '' @
     rjust ''Exhausts'' exhaust_w @ ''  '' @ rjust ''% Exhaust'' pct_w @ ''  '' @ rjust ''Games'' games_w"

definition rule_of :: "nat \<Rightarrow> string" where
  "rule_of w = replicate (w + 2 + exhaust_w + 2 + pct_w + 2 + games_w) CHR ''-''"

section \<open>The run over the participants\<close>

text \<open>
  What \<^verbatim>\<open>run\<close> writes and does, one constructor for each statement:
  \<^item> \<open>Stdout_found v\<close>: \<^verbatim>\<open>print(f"Found {len(participants)} participants. ...")\<close>;
  \<^item> \<open>Stderr_no_participants\<close>: the line before \<^verbatim>\<open>sys.exit(3)\<close>;
  \<^item> \<open>Stderr_skip i e\<close>: \<^verbatim>\<open>print(f"[{i}/10] Skipping a participant (couldn't resolve PUUID): {e}", file=sys.stderr)\<close>;
  \<^item> \<open>Stderr_count_error i name e\<close>: \<^verbatim>\<open>print(f"[{i}/10] Error while counting for {display_name}: {e}", file=sys.stderr)\<close>;
  \<^item> \<open>Stdout_player i name ex_cnt total\<close>: the progress line of a player that succeeded;
  \<^item> \<open>Sleep_between d\<close>: \<^verbatim>\<open>time.sleep(SLEEP_BETWEEN_PLAYERS)\<close>;
  \<^item> \<open>Stdout_no_data\<close>: \<^verbatim>\<open>print("\nNo data to display.")\<close>;
  \<^item> \<open>Stdout_leaderboard s\<close>: a string that \<^verbatim>\<open>print_leaderboard(rows)\<close> prints.
\<close>

datatype event =
    Stdout_found json
  | Stderr_no_participants
  | Stderr_skip int exn
  | Stderr_count_error int json exn
  | Stdout_player int json int int
  | Sleep_between rat
  | Stdout_no_data
  | Stdout_leaderboard string

datatype outcome = Returned | Exited int | Raised exn

text \<open>
  The \<^verbatim>\<open>for\<close> loop of \<^verbatim>\<open>run\<close> (lines 336 to 351) from participant number \<open>i\<close> on:
  the events and the final \<^verbatim>\<open>rows\<close>. Both \<^verbatim>\<open>except Exception\<close> clauses catch every
  exception of the model.
\<close>

fun player_loop ::
  "client \<Rightarrow> int \<Rightarrow> json list \<Rightarrow> row list \<Rightarrow> event list \<times> row list" where
  "player_loop c i [] rows = ([], rows)"
| "player_loop c i (p # ps) rows =
     (case ensure_puuid c p of
        Inl e \<Rightarrow>
          (let k = player_loop c (i + 1) ps rows in (Stderr_skip i e # fst k, snd k))
      | Inr (puuid, display_name) \<Rightarrow>
          (case count_exhaust_for_player c puuid MAX_MATCHES_PER_PLAYER of
             Inl e \<Rightarrow>
               (let k = player_loop c (i + 1) ps rows
                in (Stderr_count_error i display_name e # fst k, snd k))
           | Inr (ex_cnt, tot) \<Rightarrow>
               (let k = player_loop c (i + 1) ps (rows @ [(display_name, ex_cnt, tot)])
                in (Stdout_player i display_name ex_cnt tot # Sleep_between SLEEP_BETWEEN_PLAYERS # fst k,
                    snd k))))"

text \<open>Whether \<^verbatim>\<open>len\<close> accepts the value: a list, a dict or a string.\<close>

definition py_sized :: "json \<Rightarrow> bool" where
  "py_sized v = (case v of JList xs \<Rightarrow> True | JObj kvs \<Rightarrow> True | JStr s \<Rightarrow> True | _ \<Rightarrow> False)"

text \<open>
  The end of \<^verbatim>\<open>run\<close> (lines 353 to 357). Nothing catches an exception of
  \<^verbatim>\<open>print_leaderboard\<close>: it leaves \<^verbatim>\<open>run\<close> after the lines printed so far.
\<close>

definition report :: "builtins \<Rightarrow> stdlib \<Rightarrow> row list \<Rightarrow> event list \<times> outcome" where
  "report B U rows =
     (if rows = [] then ([Stdout_no_data], Returned)
      else (let r = print_leaderboard B U rows
            in (map Stdout_leaderboard (fst r),
                case snd r of None \<Rightarrow> Returned | Some e \<Rightarrow> Raised e)))"

text \<open>
  \<^verbatim>\<open>run\<close> from line 329 on, with the value that
  \<^verbatim>\<open>get_live_participants_via_puuid_only\<close> returned. The lines before check the
  configuration and load the participants, and leave the process when either fails.
\<close>

definition run :: "builtins \<Rightarrow> stdlib \<Rightarrow> client \<Rightarrow> json \<Rightarrow> event list \<times> outcome" where
  "run B U c participants =
     (if \<not> truthy participants then ([Stderr_no_participants], Exited 3)
      else if \<not> py_sized participants then ([], Raised TypeError)
      else
        (case py_iter participants of
           Inl e \<Rightarrow> ([Stdout_found participants], Raised e)
         | Inr ps \<Rightarrow>
             (let k = player_loop c 1 ps []; r = report B U (snd k)
              in (Stdout_found participants # fst k @ fst r, snd r))))"



section \<open>Example inputs\<close>

text \<open>The limits of the scenario of the specification: 2 per second and 5 per 10 seconds.\<close>

definition scenario_limits :: limits where
  "scenario_limits =
     \<lparr>ONE_SEC_LIMIT = 2, ONE_SEC_WINDOW = 1, TWO_MIN_LIMIT = 5, TWO_MIN_WINDOW = 10\<rparr>"

text \<open>
  An instance of the built-ins on the arguments the examples use (\<^verbatim>\<open>float("2")\<close>,
  \<^verbatim>\<open>str\<close> of a string, percentages that are whole numbers), and servers that answer by
  the attempt number.
\<close>

definition sample_builtins :: builtins where
  "sample_builtins =
     \<lparr>py_float = (\<lambda>s. if s = ''2'' then Inr 2 else Inl ValueError),
      py_str = (\<lambda>v. case v of JStr s \<Rightarrow> s | _ \<Rightarrow> []),
      py_pct = (\<lambda>n d. str_int (n * 100 div d))\<rparr>"







text \<open>
  A client for the examples. The summoner \<^verbatim>\<open>S1\<close> resolves to the player \<^verbatim>\<open>P1\<close>, who
  has three matches: Exhaust in the first, none in the second, no entry in the third.
  \<^verbatim>\<open>P2\<close> has no matches, and every other request fails.
\<close>

definition match_record :: "json list \<Rightarrow> json" where
  "match_record entries = JObj [(''info'', JObj [(''participants'', JList entries)])]"

definition entry :: "string \<Rightarrow> rat \<Rightarrow> rat \<Rightarrow> json" where
  "entry pid s1 s2 = JObj [(''puuid'', JStr pid), (''summoner1Id'', JNum s1), (''summoner2Id'', JNum s2)]"

definition match_m1 :: json where
  "match_m1 = match_record [entry ''P2'' 4 7, entry ''P1'' 3 4]"

definition match_m2 :: json where
  "match_m2 = match_record [entry ''P1'' 4 32, entry ''P2'' 4 3]"

definition match_m3 :: json where
  "match_m3 = match_record [entry ''P2'' 4 3]"

definition summ_ann :: "(string \<times> json) list" where
  "summ_ann = [(''puuid'', JStr ''P1''), (''name'', JStr ''Ann'')]"

definition sample_client :: client where
  "sample_client =
     \<lparr>summoner_by_id = (\<lambda>enc_id.
        if enc_id = JStr ''S1'' then Inr (JObj summ_ann)
        else Inl (RuntimeError ''GET u failed [404]: not found'')),
      match_ids_by_puuid = (\<lambda>puuid n queue.
        if puuid = JStr ''P1'' then Inr (JList [JStr ''M1'', JStr ''M2'', JStr ''M3''])
        else if puuid = JStr ''P2'' then Inr (JList [])
        else Inl (RuntimeError ''GET u exhausted retries'')),
      match_by_id = (\<lambda>mid.
        if mid = JStr ''M1'' then Inr match_m1
        else if mid = JStr ''M2'' then Inr match_m2
        else if mid = JStr ''M3'' then Inr match_m3
        else Inl (RuntimeError ''GET u failed [404]: not found''))\<rparr>"

text \<open>Participant records, as dicts, and rows for the report.\<close>

definition kvs_with_puuid :: "(string \<times> json) list" where
  "kvs_with_puuid = [(''puuid'', JStr ''P9''), (''summonerName'', JStr ''Cy'')]"

definition kvs_empty_puuid :: "(string \<times> json) list" where
  "kvs_empty_puuid = [(''puuid'', JStr []), (''riotId'', JStr []), (''summonerId'', JStr ''S1'')]"

definition kvs_no_ids :: "(string \<times> json) list" where
  "kvs_no_ids = [(''puuid'', JNull), (''riotId'', JStr ''Di#2''), (''id'', JStr [])]"

definition kvs_no_names :: "(string \<times> json) list" where
  "kvs_no_names = [(''puuid'', JStr ''P7''), (''riotId'', JStr []), (''summonerName'', JNull)]"

definition kvs_p2 :: "(string \<times> json) list" where
  "kvs_p2 = [(''puuid'', JStr ''P2''), (''riotId'', JStr ''Bo#1'')]"

definition kvs_number_name :: "(string \<times> json) list" where
  "kvs_number_name = [(''puuid'', JStr ''P2''), (''riotId'', JNum 5)]"


text \<open>
  An instance of the library for the examples: no combining and no wide character, and
  exact quotients (the examples divide by powers of two, where the float is exact).
\<close>

definition sample_stdlib :: stdlib where
  "sample_stdlib =
     \<lparr>combining = (\<lambda>ch. 0), east_asian_width = (\<lambda>ch. ''N''),
      int_truediv = (\<lambda>n d. Inr (of_int n / of_int d))\<rparr>"

definition sample_rows :: "row list" where
  "sample_rows = [(JStr ''Ann'', 1, 2), (JStr ''Bo'', 0, 0), (JStr ''Cy'', 3, 4), (JStr ''Di'', 1, 4)]"

section \<open>Properties of the rate limiter\<close>

lemma length_filter_mono:
  "(\<And>x. x \<in> set xs \<Longrightarrow> P x \<Longrightarrow> Q x) \<Longrightarrow> length (filter P xs) \<le> length (filter Q xs)"
  by (induction xs) auto

lemma dropWhile_old_sorted:
  fixes xs :: "rat list"
  shows "sorted xs \<Longrightarrow> dropWhile (\<lambda>t. now - t > W) xs = filter (\<lambda>t. now - t \<le> W) xs"
proof (induction xs)
  case Nil
  then show ?case by simp
next
  case (Cons x xs)
  show ?case
  proof (cases "now - x > W")
    case True
    with Cons show ?thesis by simp
  next
    case False
    with Cons.prems have "\<forall>t\<in>set (x # xs). \<not> now - t > W" by auto
    then have "filter (\<lambda>t. now - t \<le> W) (x # xs) = x # xs"
      by (intro filter_True) (auto simp: not_less)
    with False show ?thesis by simp
  qed
qed

lemma prune_window:
  fixes adm :: "rat list"
  assumes "sorted adm" "lo \<le> now"
  shows "dropWhile (\<lambda>t. now - t > W) (filter (\<lambda>t. lo - t \<le> W) adm) = filter (\<lambda>t. now - t \<le> W) adm"
proof -
  have "sorted (filter (\<lambda>t. lo - t \<le> W) adm)" using assms(1) by (rule sorted_wrt_filter)
  then have "dropWhile (\<lambda>t. now - t > W) (filter (\<lambda>t. lo - t \<le> W) adm)
      = filter (\<lambda>t. now - t \<le> W) (filter (\<lambda>t. lo - t \<le> W) adm)"
    by (rule dropWhile_old_sorted)
  also have "\<dots> = filter (\<lambda>t. now - t \<le> W) adm"
    using assms(2) by (auto simp: filter_filter intro!: filter_cong)
  finally show ?thesis .
qed

lemma admit_window:
  fixes adm :: "rat list"
  assumes "\<forall>t\<in>set adm. t \<le> now" "0 \<le> W" "\<forall>a. in_window a W adm \<le> N"
    and "length (filter (\<lambda>t. now - t \<le> W) adm) < N"
  shows "in_window a W (adm @ [now]) \<le> N"
proof (cases "a \<le> now \<and> now \<le> a + W")
  case True
  have "length (filter (\<lambda>t. a \<le> t \<and> t \<le> a + W) adm) \<le> length (filter (\<lambda>t. now - t \<le> W) adm)"
    using True by (intro length_filter_mono) auto
  with assms(4) True show ?thesis by (simp add: in_window_def)
next
  case False
  with assms(3) show ?thesis by (auto simp: in_window_def)
qed

lemma try_slot_inv:
  assumes "limiter_inv L lo adm s" "lo \<le> now" "0 \<le> ONE_SEC_WINDOW L" "0 \<le> TWO_MIN_WINDOW L"
  shows "case try_slot L now s of
           Inr s' \<Rightarrow> limiter_inv L now (adm @ [now]) s'
         | Inl (d, s') \<Rightarrow> limiter_inv L now adm s'"
proof -
  from assms(1) have srt: "sorted adm" and le: "\<forall>t\<in>set adm. t \<le> lo"
    and e1: "w1 s = filter (\<lambda>t. lo - t \<le> ONE_SEC_WINDOW L) adm"
    and e2: "w2 s = filter (\<lambda>t. lo - t \<le> TWO_MIN_WINDOW L) adm"
    and b1: "\<forall>a. in_window a (ONE_SEC_WINDOW L) adm \<le> ONE_SEC_LIMIT L"
    and b2: "\<forall>a. in_window a (TWO_MIN_WINDOW L) adm \<le> TWO_MIN_LIMIT L"
    by (simp_all add: limiter_inv_def)
  have p1: "w1 (prune L now s) = filter (\<lambda>t. now - t \<le> ONE_SEC_WINDOW L) adm"
    using prune_window [OF srt assms(2)] by (simp add: prune_def e1)
  have p2: "w2 (prune L now s) = filter (\<lambda>t. now - t \<le> TWO_MIN_WINDOW L) adm"
    using prune_window [OF srt assms(2)] by (simp add: prune_def e2)
  have le': "\<forall>t\<in>set adm. t \<le> now" using le assms(2) by auto
  show ?thesis
  proof (cases "length (w1 (prune L now s)) < ONE_SEC_LIMIT L \<and> length (w2 (prune L now s)) < TWO_MIN_LIMIT L")
    case True
    have s': "sorted (adm @ [now])" using srt le' by (simp add: sorted_append)
    have a1: "\<forall>a. in_window a (ONE_SEC_WINDOW L) (adm @ [now]) \<le> ONE_SEC_LIMIT L"
      using admit_window [OF le' assms(3) b1] True p1 by simp
    have a2: "\<forall>a. in_window a (TWO_MIN_WINDOW L) (adm @ [now]) \<le> TWO_MIN_LIMIT L"
      using admit_window [OF le' assms(4) b2] True p2 by simp
    have r: "try_slot L now s = Inr \<lparr>w1 = w1 (prune L now s) @ [now], w2 = w2 (prune L now s) @ [now]\<rparr>"
      using True by (simp add: try_slot_def Let_def)
    have f1: "filter (\<lambda>t. now - t \<le> ONE_SEC_WINDOW L) (adm @ [now]) = w1 (prune L now s) @ [now]"
      using assms(3) by (simp add: p1)
    have f2: "filter (\<lambda>t. now - t \<le> TWO_MIN_WINDOW L) (adm @ [now]) = w2 (prune L now s) @ [now]"
      using assms(4) by (simp add: p2)
    have "limiter_inv L now (adm @ [now]) \<lparr>w1 = w1 (prune L now s) @ [now], w2 = w2 (prune L now s) @ [now]\<rparr>"
      unfolding limiter_inv_def using s' le' a1 a2 f1 f2 by (intro conjI) simp_all
    with r show ?thesis by simp
  next
    case False
    then have r: "try_slot L now s = Inl (sleep_for L now (prune L now s), prune L now s)"
      by (simp add: try_slot_def Let_def)
    have "limiter_inv L now adm (prune L now s)"
      unfolding limiter_inv_def using srt le' b1 b2 p1 p2 by (intro conjI) simp_all
    with r show ?thesis by simp
  qed
qed

lemma wait_for_slot_inv:
  assumes "0 \<le> ONE_SEC_WINDOW L" "0 \<le> TWO_MIN_WINDOW L"
  shows "limiter_inv L lo adm s \<Longrightarrow> sorted (lo # clock) \<Longrightarrow>
         wait_for_slot L clock s = Some (t, ds, rest, s') \<Longrightarrow>
         limiter_inv L t (adm @ [t]) s' \<and> sorted (t # rest)"
proof (induction clock arbitrary: lo s ds)
  case Nil
  then show ?case by simp
next
  case (Cons now clock)
  from Cons.prems(2) have lo: "lo \<le> now" and sc: "sorted (now # clock)" by auto
  note step = try_slot_inv [OF Cons.prems(1) lo assms]
  show ?case
  proof (cases "try_slot L now s")
    case (Inr s1)
    with step Cons.prems(3) sc show ?thesis by auto
  next
    case (Inl p)
    obtain d s1 where p: "p = (d, s1)" by (cases p)
    from Inl p step have inv1: "limiter_inv L now adm s1" by simp
    from Inl p Cons.prems(3) obtain ds' where "wait_for_slot L clock s1 = Some (t, ds', rest, s')"
      by (auto split: option.splits)
    from Cons.IH [OF inv1 sc this] show ?thesis .
  qed
qed

lemma admissions_inv:
  assumes "0 \<le> ONE_SEC_WINDOW L" "0 \<le> TWO_MIN_WINDOW L"
  shows "limiter_inv L lo adm s \<Longrightarrow> sorted (lo # clock) \<Longrightarrow>
         \<exists>hi s'. limiter_inv L hi (adm @ admissions L n clock s) s'"
proof (induction n arbitrary: lo adm s clock)
  case 0
  then show ?case by auto
next
  case (Suc n)
  show ?case
  proof (cases "wait_for_slot L clock s")
    case None
    with Suc.prems show ?thesis by auto
  next
    case (Some r)
    obtain t ds rest s1 where r: "r = (t, ds, rest, s1)" by (cases r)
    from wait_for_slot_inv [OF assms Suc.prems(1,2) Some [unfolded r]]
    have "limiter_inv L t (adm @ [t]) s1" "sorted (t # rest)" by auto
    from Suc.IH [OF this] obtain hi s' where
      "limiter_inv L hi ((adm @ [t]) @ admissions L n rest s1) s'" by blast
    with Some r show ?thesis by auto
  qed
qed

lemma init_inv: "limiter_inv L lo [] init_limiter"
  by (simp add: limiter_inv_def init_limiter_def in_window_def)

text \<open>
  Claim C1. Whatever the number of calls of \<^verbatim>\<open>wait_for_slot\<close> and whatever the readings
  of a clock that does not run backwards, no closed interval of the length of the short
  window holds more than \<^verbatim>\<open>ONE_SEC_LIMIT\<close> admission timestamps, and none of the length
  of the long window more than \<^verbatim>\<open>TWO_MIN_LIMIT\<close>.
\<close>

theorem rolling_windows_never_exceeded:
  assumes "sorted clock" "0 \<le> ONE_SEC_WINDOW L" "0 \<le> TWO_MIN_WINDOW L"
  shows "in_window a (ONE_SEC_WINDOW L) (admissions L n clock init_limiter) \<le> ONE_SEC_LIMIT L \<and>
         in_window b (TWO_MIN_WINDOW L) (admissions L n clock init_limiter) \<le> TWO_MIN_LIMIT L"
proof (cases clock)
  case Nil
  then show ?thesis by (cases n) (simp_all add: in_window_def)
next
  case (Cons c cs)
  with assms(1) have "sorted (c # clock)" by auto
  from admissions_inv [OF assms(2,3) init_inv this, of n]
  show ?thesis by (auto simp: limiter_inv_def)
qed

theorem rolling_windows_never_exceeded_witness:
  "sorted [0, 0, 1 / 2, 101 / 100 :: rat] \<and>
   0 \<le> ONE_SEC_WINDOW default_limits \<and> 0 \<le> TWO_MIN_WINDOW default_limits \<and>
   admissions default_limits 3 [0, 0, 1 / 2, 101 / 100] init_limiter = [0, 0, 1 / 2] \<and>
   in_window 0 (ONE_SEC_WINDOW default_limits)
     (admissions default_limits 3 [0, 0, 1 / 2, 101 / 100] init_limiter) \<le> ONE_SEC_LIMIT default_limits \<and>
   in_window 0 (TWO_MIN_WINDOW default_limits)
     (admissions default_limits 3 [0, 0, 1 / 2, 101 / 100] init_limiter) \<le> TWO_MIN_LIMIT default_limits"
proof -
  have h1: "sorted [0, 0, 1 / 2, 101 / 100 :: rat]" by simp
  have h2: "0 \<le> ONE_SEC_WINDOW default_limits" by (simp add: default_limits_def)
  have h3: "0 \<le> TWO_MIN_WINDOW default_limits" by (simp add: default_limits_def)
  have e: "admissions default_limits 3 [0, 0, 1 / 2, 101 / 100] init_limiter = [0, 0, 1 / 2]"
    by code_simp
  from rolling_windows_never_exceeded [OF h1 h2 h3, of 0 3 0] h1 h2 h3 e
  show ?thesis by blast
qed

text \<open>
  Claim C2. When a window is at its limit, the sleep should be the wait until the oldest
  entry of the window that is full expires, not less than the floor of 0.01 s. The code
  takes the maximum over both deques whenever they are not empty, full or not. With the
  limits of the source, twenty admissions at time 0 fill the short window and leave the
  long one at 20 of 100: at time 0.5 the code sleeps 119.5 s, until the oldest entry of
  the long window expires, although a slot is free at time 1.01. With the limits 2 per
  second and 5 per 10 seconds, the third call after two admissions at time 0 sleeps 9.9 s
  at time 0.1, not 0.9 s.
\<close>

theorem sleep_waits_for_window_that_is_not_full:
  "limiter_after default_limits 20 (replicate 20 0) init_limiter
     = \<lparr>w1 = replicate 20 0, w2 = replicate 20 0\<rparr> \<and>
   try_slot default_limits (1 / 2) \<lparr>w1 = replicate 20 0, w2 = replicate 20 0\<rparr>
     = Inl (239 / 2, \<lparr>w1 = replicate 20 0, w2 = replicate 20 0\<rparr>) \<and>
   try_slot default_limits (101 / 100) \<lparr>w1 = replicate 20 0, w2 = replicate 20 0\<rparr>
     = Inr \<lparr>w1 = [101 / 100], w2 = replicate 20 0 @ [101 / 100]\<rparr> \<and>
   wait_for_slot default_limits [1 / 2, 120] \<lparr>w1 = replicate 20 0, w2 = replicate 20 0\<rparr>
     = Some (120, [239 / 2], [], \<lparr>w1 = [120], w2 = replicate 20 0 @ [120]\<rparr>) \<and>
   limiter_after scenario_limits 2 [0, 0] init_limiter = \<lparr>w1 = [0, 0], w2 = [0, 0]\<rparr> \<and>
   wait_for_slot scenario_limits [1 / 10, 10] \<lparr>w1 = [0, 0], w2 = [0, 0]\<rparr>
     = Some (10, [99 / 10], [], \<lparr>w1 = [10], w2 = [0, 0, 10]\<rparr>)"
  by code_simp

section \<open>Properties of \<^verbatim>\<open>_get\<close>\<close>

declare str_nat.simps [simp del]







lemma messages_differ: "exhausted_message url \<noteq> failed_message B url resp"
  by (simp add: exhausted_message_def failed_message_def Let_def)








section \<open>Properties of \<^verbatim>\<open>ensure_puuid\<close>\<close>

lemma py_eq_JStr [simp]: "py_eq v (JStr s) \<longleftrightarrow> v = JStr s"
  by (cases v) (auto simp: py_eq_def)

lemma py_eq_JNum_3 [simp]: "py_eq v (JNum 3) \<longleftrightarrow> v = JNum 3"
  by (cases v) (auto simp: py_eq_def)

lemma map_of_without_key:
  "map_of (filter (\<lambda>kv. fst kv \<noteq> k) kvs) k' = (if k' = k then None else map_of kvs k')"
  by (induction kvs) auto

lemma dict_get_without_key:
  "dict_get (filter (\<lambda>kv. fst kv \<noteq> k) kvs) k' = (if k' = k then JNull else dict_get kvs k')"
  by (simp add: dict_get_def map_of_without_key)

lemma ensure_puuid_truthy:
  "truthy (dict_get kvs ''puuid'') \<Longrightarrow>
   ensure_puuid c (JObj kvs) = Inr (dict_get kvs ''puuid'', display_name_of kvs)"
  by (simp add: ensure_puuid_def Let_def)

lemma ensure_puuid_falsy:
  "\<not> truthy (dict_get kvs ''puuid'') \<Longrightarrow>
   ensure_puuid c (JObj kvs) = resolve_legacy c kvs (display_name_of kvs)"
  by (simp add: ensure_puuid_def Let_def)

lemma resolve_legacy_found:
  assumes "truthy (enc_id_of kvs)" "summoner_by_id c (enc_id_of kvs) = Inr (JObj summ)"
    "map_of summ ''puuid'' = Some p"
  shows "resolve_legacy c kvs d =
     Inr (p, if d = JStr ''Unknown''
             then (case map_of summ ''name'' of Some n \<Rightarrow> n | None \<Rightarrow> JStr ''Unknown'')
             else d)"
  using assms by (simp add: resolve_legacy_def Let_def py_item_def py_get_def split: option.splits)

lemma resolve_legacy_missing:
  "\<not> truthy (enc_id_of kvs) \<Longrightarrow> resolve_legacy c kvs d = Inl (RuntimeError missing_ids_message)"
  by (simp add: resolve_legacy_def Let_def)

lemma resolve_legacy_lookup_error:
  assumes "truthy (enc_id_of kvs)" "resolve_legacy c kvs d = Inl (RuntimeError missing_ids_message)"
  shows "summoner_by_id c (enc_id_of kvs) = Inl (RuntimeError missing_ids_message)"
  using assms
  by (auto simp: resolve_legacy_def Let_def py_item_def py_get_def
      split: sum.splits json.splits option.splits if_splits)

lemma truthy_enc_id_of:
  "truthy (enc_id_of kvs) \<longleftrightarrow>
   truthy (dict_get kvs ''summonerId'') \<or> truthy (dict_get kvs ''encryptedSummonerId'') \<or>
   truthy (dict_get kvs ''id'')"
  by (simp add: enc_id_of_def py_or_def)

lemmas sample_eval =
  ensure_puuid_def resolve_legacy_def enc_id_of_def display_name_of_def dict_get_def
  py_or_def py_item_def py_get_def sample_client_def summ_ann_def Let_def
  kvs_with_puuid_def kvs_empty_puuid_def kvs_no_ids_def kvs_no_names_def kvs_p2_def
  missing_ids_message_def

text \<open>
  Claim C8 speaks of fields that are present. The code tests the values: a record whose
  \<^verbatim>\<open>puuid\<close> is present and holds the empty string does not get its own puuid back but the
  one of the summoner lookup, and a record whose first present legacy field,
  \<^verbatim>\<open>summonerId\<close>, is empty is looked up by its \<^verbatim>\<open>id\<close> (a lookup by the empty
  \<^verbatim>\<open>summonerId\<close> fails on this client).
\<close>

theorem ensure_puuid_present_but_empty:
  "map_of [(''puuid'', JStr []), (''riotId'', JStr ''Bo#1''), (''summonerId'', JStr ''S1'')] ''puuid''
     = Some (JStr []) \<and>
   ensure_puuid sample_client
     (JObj [(''puuid'', JStr []), (''riotId'', JStr ''Bo#1''), (''summonerId'', JStr ''S1'')])
     = Inr (JStr ''P1'', JStr ''Bo#1'') \<and>
   map_of [(''summonerId'', JStr []), (''id'', JStr ''S1'')] ''summonerId'' = Some (JStr []) \<and>
   ensure_puuid sample_client (JObj [(''summonerId'', JStr []), (''id'', JStr ''S1'')])
     = Inr (JStr ''P1'', JStr ''Ann'') \<and>
   summoner_by_id sample_client (JStr []) = Inl (RuntimeError ''GET u failed [404]: not found'')"
  by (simp add: ensure_puuid_def resolve_legacy_def enc_id_of_def display_name_of_def dict_get_def
      py_or_def py_item_def py_get_def sample_client_def summ_ann_def Let_def)

text \<open>
  Claim C8, as amended. When the \<^verbatim>\<open>puuid\<close> of the record holds a truthy value,
  \<^verbatim>\<open>ensure_puuid\<close> returns it with the display name of the record: the first truthy one of
  \<^verbatim>\<open>riotId\<close> and \<^verbatim>\<open>summonerName\<close>, else \<^verbatim>\<open>Unknown\<close>. Otherwise the puuid comes from
  the summoner lookup by the first truthy one of \<^verbatim>\<open>summonerId\<close>,
  \<^verbatim>\<open>encryptedSummonerId\<close>, \<^verbatim>\<open>id\<close>, and the name of the lookup replaces
  \<^verbatim>\<open>Unknown\<close>. Unless the lookup itself fails with that very message, the error for
  missing identifiers is raised if and only if \<^verbatim>\<open>puuid\<close> and the three legacy fields are
  all missing or falsy.
\<close>

theorem ensure_puuid_by_truthiness:
  "(truthy (dict_get kvs ''puuid'') \<longrightarrow>
      ensure_puuid c (JObj kvs) = Inr (dict_get kvs ''puuid'', display_name_of kvs)) \<and>
   (\<not> truthy (dict_get kvs ''puuid'') \<longrightarrow> truthy (enc_id_of kvs) \<longrightarrow>
      summoner_by_id c (enc_id_of kvs) = Inr (JObj summ) \<longrightarrow> map_of summ ''puuid'' = Some p \<longrightarrow>
      ensure_puuid c (JObj kvs) =
        Inr (p, if display_name_of kvs = JStr ''Unknown''
                then (case map_of summ ''name'' of Some n \<Rightarrow> n | None \<Rightarrow> JStr ''Unknown'')
                else display_name_of kvs)) \<and>
   enc_id_of kvs =
     (if truthy (dict_get kvs ''summonerId'') then dict_get kvs ''summonerId''
      else if truthy (dict_get kvs ''encryptedSummonerId'') then dict_get kvs ''encryptedSummonerId''
      else dict_get kvs ''id'') \<and>
   display_name_of kvs =
     (if truthy (dict_get kvs ''riotId'') then dict_get kvs ''riotId''
      else if truthy (dict_get kvs ''summonerName'') then dict_get kvs ''summonerName''
      else JStr ''Unknown'') \<and>
   (summoner_by_id c (enc_id_of kvs) \<noteq> Inl (RuntimeError missing_ids_message) \<longrightarrow>
      (ensure_puuid c (JObj kvs) = Inl (RuntimeError missing_ids_message) \<longleftrightarrow>
       \<not> truthy (dict_get kvs ''puuid'') \<and> \<not> truthy (dict_get kvs ''summonerId'') \<and>
       \<not> truthy (dict_get kvs ''encryptedSummonerId'') \<and> \<not> truthy (dict_get kvs ''id'')))"
proof (intro conjI impI)
  assume "truthy (dict_get kvs ''puuid'')"
  then show "ensure_puuid c (JObj kvs) = Inr (dict_get kvs ''puuid'', display_name_of kvs)"
    by (rule ensure_puuid_truthy)
next
  assume "\<not> truthy (dict_get kvs ''puuid'')" "truthy (enc_id_of kvs)"
    "summoner_by_id c (enc_id_of kvs) = Inr (JObj summ)" "map_of summ ''puuid'' = Some p"
  then show "ensure_puuid c (JObj kvs) =
        Inr (p, if display_name_of kvs = JStr ''Unknown''
                then (case map_of summ ''name'' of Some n \<Rightarrow> n | None \<Rightarrow> JStr ''Unknown'')
                else display_name_of kvs)"
    by (simp add: ensure_puuid_falsy resolve_legacy_found)
next
  show "enc_id_of kvs =
     (if truthy (dict_get kvs ''summonerId'') then dict_get kvs ''summonerId''
      else if truthy (dict_get kvs ''encryptedSummonerId'') then dict_get kvs ''encryptedSummonerId''
      else dict_get kvs ''id'')"
    by (simp add: enc_id_of_def py_or_def)
next
  show "display_name_of kvs =
     (if truthy (dict_get kvs ''riotId'') then dict_get kvs ''riotId''
      else if truthy (dict_get kvs ''summonerName'') then dict_get kvs ''summonerName''
      else JStr ''Unknown'')"
    by (simp add: display_name_of_def py_or_def)
next
  assume ne: "summoner_by_id c (enc_id_of kvs) \<noteq> Inl (RuntimeError missing_ids_message)"
  show "ensure_puuid c (JObj kvs) = Inl (RuntimeError missing_ids_message) \<longleftrightarrow>
       \<not> truthy (dict_get kvs ''puuid'') \<and> \<not> truthy (dict_get kvs ''summonerId'') \<and>
       \<not> truthy (dict_get kvs ''encryptedSummonerId'') \<and> \<not> truthy (dict_get kvs ''id'')"
  proof (cases "truthy (dict_get kvs ''puuid'')")
    case True
    then show ?thesis by (simp add: ensure_puuid_truthy)
  next
    case False
    show ?thesis
    proof (cases "truthy (enc_id_of kvs)")
      case True
      with ne resolve_legacy_lookup_error [OF True]
      have "resolve_legacy c kvs (display_name_of kvs) \<noteq> Inl (RuntimeError missing_ids_message)"
        by blast
      with False True show ?thesis by (simp add: ensure_puuid_falsy truthy_enc_id_of)
    next
      case F2: False
      from F2 have "\<not> truthy (dict_get kvs ''summonerId'') \<and>
          \<not> truthy (dict_get kvs ''encryptedSummonerId'') \<and> \<not> truthy (dict_get kvs ''id'')"
        by (simp add: truthy_enc_id_of)
      with False F2 show ?thesis
        by (simp add: ensure_puuid_falsy resolve_legacy_missing)
    qed
  qed
qed

theorem ensure_puuid_by_truthiness_witness:
  "truthy (dict_get kvs_with_puuid ''puuid'') \<and>
   ensure_puuid sample_client (JObj kvs_with_puuid) = Inr (JStr ''P9'', JStr ''Cy'') \<and>
   \<not> truthy (dict_get kvs_empty_puuid ''puuid'') \<and> truthy (enc_id_of kvs_empty_puuid) \<and>
   summoner_by_id sample_client (enc_id_of kvs_empty_puuid) = Inr (JObj summ_ann) \<and>
   map_of summ_ann ''puuid'' = Some (JStr ''P1'') \<and>
   ensure_puuid sample_client (JObj kvs_empty_puuid) = Inr (JStr ''P1'', JStr ''Ann'') \<and>
   summoner_by_id sample_client (enc_id_of kvs_no_ids) \<noteq> Inl (RuntimeError missing_ids_message) \<and>
   ensure_puuid sample_client (JObj kvs_no_ids) = Inl (RuntimeError missing_ids_message)"
proof -
  have a: "truthy (dict_get kvs_with_puuid ''puuid'')" by (simp add: sample_eval)
  have b1: "\<not> truthy (dict_get kvs_empty_puuid ''puuid'')"
    and b2: "truthy (enc_id_of kvs_empty_puuid)"
    and b3: "summoner_by_id sample_client (enc_id_of kvs_empty_puuid) = Inr (JObj summ_ann)"
    by (simp_all add: sample_eval)
  have b4: "map_of summ_ann ''puuid'' = Some (JStr ''P1'')" by (simp add: summ_ann_def)
  have c1: "summoner_by_id sample_client (enc_id_of kvs_no_ids) \<noteq> Inl (RuntimeError missing_ids_message)"
    by (simp add: sample_eval)
  have c2: "\<not> truthy (dict_get kvs_no_ids ''puuid'') \<and> \<not> truthy (dict_get kvs_no_ids ''summonerId'') \<and>
       \<not> truthy (dict_get kvs_no_ids ''encryptedSummonerId'') \<and> \<not> truthy (dict_get kvs_no_ids ''id'')"
    by (simp add: sample_eval)
  note ta = ensure_puuid_by_truthiness [where kvs = kvs_with_puuid and c = sample_client]
  note tb = ensure_puuid_by_truthiness [where kvs = kvs_empty_puuid and c = sample_client
      and summ = summ_ann and p = "JStr ''P1''"]
  note tc = ensure_puuid_by_truthiness [where kvs = kvs_no_ids and c = sample_client]
  have ra: "ensure_puuid sample_client (JObj kvs_with_puuid) = Inr (JStr ''P9'', JStr ''Cy'')"
    using ta a by (simp add: sample_eval)
  have rb: "ensure_puuid sample_client (JObj kvs_empty_puuid) = Inr (JStr ''P1'', JStr ''Ann'')"
    using tb b1 b2 b3 b4 by (simp add: sample_eval)
  have rc: "ensure_puuid sample_client (JObj kvs_no_ids) = Inl (RuntimeError missing_ids_message)"
    using tc c1 c2 by blast
  from a ra b1 b2 b3 b4 rb c1 rc show ?thesis by blast
qed

text \<open>
  Claim C10. A record whose \<^verbatim>\<open>puuid\<close> is present with a falsy value is resolved as the
  same record without the key: by the legacy identifiers. When \<^verbatim>\<open>riotId\<close> and
  \<^verbatim>\<open>summonerName\<close> are missing or falsy, the display name is \<^verbatim>\<open>Unknown\<close> next to a
  puuid of the record, and the name of the summoner lookup (\<^verbatim>\<open>Unknown\<close> when it has none)
  in the fallback.
\<close>

theorem falsy_fields_count_as_absent:
  "(map_of kvs ''puuid'' = Some v \<longrightarrow> \<not> truthy v \<longrightarrow>
      ensure_puuid c (JObj kvs) = ensure_puuid c (JObj (filter (\<lambda>kv. fst kv \<noteq> ''puuid'') kvs)) \<and>
      ensure_puuid c (JObj kvs) = resolve_legacy c kvs (display_name_of kvs)) \<and>
   (\<not> truthy (dict_get kvs ''riotId'') \<longrightarrow> \<not> truthy (dict_get kvs ''summonerName'') \<longrightarrow>
      (truthy (dict_get kvs ''puuid'') \<longrightarrow>
         ensure_puuid c (JObj kvs) = Inr (dict_get kvs ''puuid'', JStr ''Unknown'')) \<and>
      (\<not> truthy (dict_get kvs ''puuid'') \<longrightarrow> truthy (enc_id_of kvs) \<longrightarrow>
         summoner_by_id c (enc_id_of kvs) = Inr (JObj summ) \<longrightarrow> map_of summ ''puuid'' = Some p \<longrightarrow>
         ensure_puuid c (JObj kvs) =
           Inr (p, case map_of summ ''name'' of Some n \<Rightarrow> n | None \<Rightarrow> JStr ''Unknown'')))"
proof (intro conjI impI)
  assume v: "map_of kvs ''puuid'' = Some v" "\<not> truthy v"
  let ?kvs' = "filter (\<lambda>kv. fst kv \<noteq> ''puuid'') kvs"
  from v have f: "\<not> truthy (dict_get kvs ''puuid'')" by (simp add: dict_get_def)
  have f': "\<not> truthy (dict_get ?kvs' ''puuid'')" by (simp add: dict_get_without_key)
  have e: "enc_id_of ?kvs' = enc_id_of kvs" "display_name_of ?kvs' = display_name_of kvs"
    by (simp_all add: enc_id_of_def display_name_of_def dict_get_without_key)
  have "resolve_legacy c ?kvs' (display_name_of ?kvs') = resolve_legacy c kvs (display_name_of kvs)"
    by (simp add: resolve_legacy_def e)
  then show "ensure_puuid c (JObj kvs) = ensure_puuid c (JObj ?kvs')"
    by (simp add: ensure_puuid_falsy [OF f] ensure_puuid_falsy [OF f'])
  show "ensure_puuid c (JObj kvs) = resolve_legacy c kvs (display_name_of kvs)"
    by (rule ensure_puuid_falsy [OF f])
next
  assume n: "\<not> truthy (dict_get kvs ''riotId'')" "\<not> truthy (dict_get kvs ''summonerName'')"
  then have d: "display_name_of kvs = JStr ''Unknown''"
    by (simp add: display_name_of_def py_or_def)
  {
    assume "truthy (dict_get kvs ''puuid'')"
    then show "ensure_puuid c (JObj kvs) = Inr (dict_get kvs ''puuid'', JStr ''Unknown'')"
      by (simp add: ensure_puuid_truthy d)
  }
  {
    assume "\<not> truthy (dict_get kvs ''puuid'')" "truthy (enc_id_of kvs)"
      "summoner_by_id c (enc_id_of kvs) = Inr (JObj summ)" "map_of summ ''puuid'' = Some p"
    then show "ensure_puuid c (JObj kvs) =
           Inr (p, case map_of summ ''name'' of Some n \<Rightarrow> n | None \<Rightarrow> JStr ''Unknown'')"
      by (simp add: ensure_puuid_falsy resolve_legacy_found d)
  }
qed

theorem falsy_fields_count_as_absent_witness:
  "map_of kvs_empty_puuid ''puuid'' = Some (JStr []) \<and> \<not> truthy (JStr []) \<and>
   ensure_puuid sample_client (JObj kvs_empty_puuid) =
     ensure_puuid sample_client (JObj (filter (\<lambda>kv. fst kv \<noteq> ''puuid'') kvs_empty_puuid)) \<and>
   \<not> truthy (dict_get kvs_empty_puuid ''riotId'') \<and>
   \<not> truthy (dict_get kvs_empty_puuid ''summonerName'') \<and>
   \<not> truthy (dict_get kvs_empty_puuid ''puuid'') \<and> truthy (enc_id_of kvs_empty_puuid) \<and>
   summoner_by_id sample_client (enc_id_of kvs_empty_puuid) = Inr (JObj summ_ann) \<and>
   map_of summ_ann ''puuid'' = Some (JStr ''P1'') \<and>
   ensure_puuid sample_client (JObj kvs_empty_puuid) = Inr (JStr ''P1'', JStr ''Ann'') \<and>
   \<not> truthy (dict_get kvs_no_names ''riotId'') \<and> \<not> truthy (dict_get kvs_no_names ''summonerName'') \<and>
   truthy (dict_get kvs_no_names ''puuid'') \<and>
   ensure_puuid sample_client (JObj kvs_no_names) = Inr (JStr ''P7'', JStr ''Unknown'')"
proof -
  have a1: "map_of kvs_empty_puuid ''puuid'' = Some (JStr [])" by (simp add: sample_eval)
  have a2: "\<not> truthy (JStr [])" by simp
  have b1: "\<not> truthy (dict_get kvs_empty_puuid ''riotId'')"
    and b2: "\<not> truthy (dict_get kvs_empty_puuid ''summonerName'')"
    and b3: "\<not> truthy (dict_get kvs_empty_puuid ''puuid'')"
    and b4: "truthy (enc_id_of kvs_empty_puuid)"
    and b5: "summoner_by_id sample_client (enc_id_of kvs_empty_puuid) = Inr (JObj summ_ann)"
    by (simp_all add: sample_eval)
  have b6: "map_of summ_ann ''puuid'' = Some (JStr ''P1'')" by (simp add: summ_ann_def)
  have c1: "\<not> truthy (dict_get kvs_no_names ''riotId'')"
    and c2: "\<not> truthy (dict_get kvs_no_names ''summonerName'')"
    and c3: "truthy (dict_get kvs_no_names ''puuid'')"
    by (simp_all add: sample_eval)
  note t1 = falsy_fields_count_as_absent [where kvs = kvs_empty_puuid and v = "JStr []"
      and c = sample_client and summ = summ_ann and p = "JStr ''P1''"]
  note t2 = falsy_fields_count_as_absent [where kvs = kvs_no_names and c = sample_client]
  have r1: "ensure_puuid sample_client (JObj kvs_empty_puuid) =
     ensure_puuid sample_client (JObj (filter (\<lambda>kv. fst kv \<noteq> ''puuid'') kvs_empty_puuid))"
    using t1 a1 a2 by blast
  have r2: "ensure_puuid sample_client (JObj kvs_empty_puuid) = Inr (JStr ''P1'', JStr ''Ann'')"
    using t1 b1 b2 b3 b4 b5 b6 by (simp add: summ_ann_def)
  have r3: "ensure_puuid sample_client (JObj kvs_no_names) = Inr (JStr ''P7'', JStr ''Unknown'')"
    using t2 c1 c2 c3 by (simp add: dict_get_def kvs_no_names_def)
  from a1 a2 r1 b1 b2 b3 b4 b5 b6 r2 c1 c2 c3 r3 show ?thesis by blast
qed

section \<open>Properties of \<^verbatim>\<open>count_exhaust_for_player\<close>\<close>

lemma find_me_dicts:
  "list_all is_dict ps \<Longrightarrow>
   find_me (JStr pid) ps = Inr (case first_entry pid ps of Some e \<Rightarrow> JObj e | None \<Rightarrow> JNull)"
proof (induction ps)
  case Nil
  show ?case by simp
next
  case (Cons p ps)
  then obtain e where p: "p = JObj e" by (cases p) (auto simp: is_dict_def)
  from Cons have IH: "find_me (JStr pid) ps =
      Inr (case first_entry pid ps of Some e \<Rightarrow> JObj e | None \<Rightarrow> JNull)" by simp
  show ?case
  proof (cases "map_of e ''puuid''")
    case None
    with p IH show ?thesis by (simp add: py_get_def)
  next
    case (Some v)
    with p IH show ?thesis by (simp add: py_get_def)
  qed
qed

lemma first_entry_has_puuid:
  "first_entry pid ps = Some e \<Longrightarrow> map_of e ''puuid'' = Some (JStr pid)"
  by (induction pid ps rule: first_entry.induct) (auto split: if_splits)

lemma examine_found:
  assumes "first_entry pid ps = Some e"
  shows "(if \<not> truthy (JObj e) then Inr None
          else (case py_get (JObj e) ''summoner1Id'' JNull of
                  Inl x \<Rightarrow> Inl x
                | Inr s1 \<Rightarrow>
                    (case py_get (JObj e) ''summoner2Id'' JNull of
                       Inl x \<Rightarrow> Inl x
                     | Inr s2 \<Rightarrow> Inr (Some (py_eq s1 EXHAUST_ID \<or> py_eq s2 EXHAUST_ID)))))
         = (Inr (Some (took_exhaust e)) :: exn + bool option)"
proof -
  from first_entry_has_puuid [OF assms] have "e \<noteq> []" by auto
  then show ?thesis
    by (auto simp: py_get_def took_exhaust_def EXHAUST_ID_def split: option.splits)
qed

lemma examine_participants:
  assumes "list_all is_dict ps"
  shows "(case py_iter (JList ps) of
            Inl e \<Rightarrow> Inl e
          | Inr ps \<Rightarrow>
         (case find_me (JStr pid) ps of
            Inl e \<Rightarrow> Inl e
          | Inr me \<Rightarrow>
              if \<not> truthy me then Inr None
              else
         (case py_get me ''summoner1Id'' JNull of
            Inl e \<Rightarrow> Inl e
          | Inr s1 \<Rightarrow>
         (case py_get me ''summoner2Id'' JNull of
            Inl e \<Rightarrow> Inl e
          | Inr s2 \<Rightarrow> Inr (Some (py_eq s1 EXHAUST_ID \<or> py_eq s2 EXHAUST_ID))))))
         = (Inr (map_option took_exhaust (first_entry pid ps)) :: exn + bool option)"
proof (cases "first_entry pid ps")
  case None
  then show ?thesis by (simp add: py_iter_def find_me_dicts [OF assms])
next
  case (Some e)
  with examine_found [OF Some] show ?thesis
    by (simp add: py_iter_def find_me_dicts [OF assms])
qed

lemma examine_match_well_formed:
  assumes "match_by_id c mid = Inr data" "well_formed_match data"
  shows "examine_match c (JStr pid) mid = Inr (map_option took_exhaust (player_entry pid data))"
proof -
  from assms(2) obtain d where d: "data = JObj d"
    by (cases data) (auto simp: well_formed_match_def)
  show ?thesis
  proof (cases "map_of d ''info''")
    case None
    with assms(1) d show ?thesis
      by (simp add: examine_match_def player_entry_def py_get_def py_iter_def)
  next
    case (Some info)
    with assms(2) d obtain i where i: "info = JObj i"
      by (cases info) (auto simp: well_formed_match_def)
    show ?thesis
    proof (cases "map_of i ''participants''")
      case None
      with assms(1) d Some i show ?thesis
        by (simp add: examine_match_def player_entry_def py_get_def py_iter_def)
    next
      case P: (Some participants)
      with assms(2) d Some i obtain ps where ps: "participants = JList ps" "list_all is_dict ps"
        by (cases participants) (auto simp: well_formed_match_def)
      from examine_participants [OF ps(2), of pid] assms(1) d Some i P ps(1) show ?thesis
        by (simp add: examine_match_def player_entry_def py_get_def)
    qed
  qed
qed

lemma count_loop_well_formed:
  assumes "\<forall>mid\<in>set mids. \<exists>data. match_by_id c mid = Inr data \<and> well_formed_match data"
  shows "count_loop c (JStr pid) mids x t =
     Inr (x + int (length (filter took_exhaust (found_entries c pid mids))),
          t + int (length (found_entries c pid mids)))"
  using assms
proof (induction mids arbitrary: x t)
  case Nil
  show ?case by (simp add: found_entries_def List.map_filter_simps)
next
  case (Cons mid mids)
  then obtain data where data: "match_by_id c mid = Inr data" "well_formed_match data" by auto
  note ex = examine_match_well_formed [OF data, of pid]
  from Cons have IH: "\<And>x t. count_loop c (JStr pid) mids x t =
     Inr (x + int (length (filter took_exhaust (found_entries c pid mids))),
          t + int (length (found_entries c pid mids)))" by simp
  show ?case
  proof (cases "player_entry pid data")
    case None
    with ex data IH show ?thesis by (simp add: found_entries_def List.map_filter_simps)
  next
    case (Some e)
    with ex data IH show ?thesis by (simp add: found_entries_def List.map_filter_simps)
  qed
qed

lemma count_loop_bounds:
  "count_loop c puuid mids x t = Inr (x', t') \<Longrightarrow> 0 \<le> x \<Longrightarrow> x \<le> t \<Longrightarrow> 0 \<le> x' \<and> x' \<le> t'"
proof (induction mids arbitrary: x t)
  case Nil
  then show ?case by simp
next
  case (Cons mid mids)
  show ?case
  proof (cases "examine_match c puuid mid")
    case (Inl e)
    with Cons.prems show ?thesis by simp
  next
    case (Inr r)
    show ?thesis
    proof (cases r)
      case None
      with Inr Cons.prems Cons.IH [of x t] show ?thesis by simp
    next
      case (Some used)
      with Inr Cons.prems
      have "count_loop c puuid mids (if used then x + 1 else x) (t + 1) = Inr (x', t')" by simp
      from Cons.IH [OF this] Cons.prems(2,3) show ?thesis by (cases used) auto
    qed
  qed
qed

lemmas sample_matches =
  sample_client_def match_m1_def match_m2_def match_m3_def match_record_def entry_def

text \<open>
  Claim C6. For a player identifier and the match ids the client lists, when every match
  is fetched and well formed, \<^verbatim>\<open>count_exhaust_for_player\<close> returns the number of entries
  found that took Exhaust and the number of entries found; matches without an entry of the
  player add nothing. An empty list of match ids gives \<open>(0, 0)\<close>. Whatever the call
  returns satisfies \<open>0 \<le> used \<le> examined\<close>.
\<close>

theorem count_exhaust_tally:
  "(match_ids_by_puuid c (JStr pid) m ARAM_QUEUE_ID = Inr (JList mids) \<longrightarrow>
      (\<forall>mid\<in>set mids. \<exists>data. match_by_id c mid = Inr data \<and> well_formed_match data) \<longrightarrow>
      count_exhaust_for_player c (JStr pid) m =
        Inr (int (length (filter took_exhaust (found_entries c pid mids))),
             int (length (found_entries c pid mids)))) \<and>
   (match_ids_by_puuid c puuid m ARAM_QUEUE_ID = Inr (JList []) \<longrightarrow>
      count_exhaust_for_player c puuid m = Inr (0, 0)) \<and>
   (count_exhaust_for_player c puuid m = Inr (used, examined) \<longrightarrow> 0 \<le> used \<and> used \<le> examined)"
proof (intro conjI impI)
  assume ids: "match_ids_by_puuid c (JStr pid) m ARAM_QUEUE_ID = Inr (JList mids)"
    and wf: "\<forall>mid\<in>set mids. \<exists>data. match_by_id c mid = Inr data \<and> well_formed_match data"
  show "count_exhaust_for_player c (JStr pid) m =
        Inr (int (length (filter took_exhaust (found_entries c pid mids))),
             int (length (found_entries c pid mids)))"
  proof (cases mids)
    case Nil
    with ids show ?thesis
      by (simp add: count_exhaust_for_player_def found_entries_def List.map_filter_simps)
  next
    case (Cons a list)
    with ids count_loop_well_formed [OF wf, of pid 0 0] show ?thesis
      by (simp add: count_exhaust_for_player_def py_iter_def)
  qed
next
  assume "match_ids_by_puuid c puuid m ARAM_QUEUE_ID = Inr (JList [])"
  then show "count_exhaust_for_player c puuid m = Inr (0, 0)"
    by (simp add: count_exhaust_for_player_def)
next
  assume r: "count_exhaust_for_player c puuid m = Inr (used, examined)"
  show "0 \<le> used" "used \<le> examined"
  proof -
    have "0 \<le> used \<and> used \<le> examined"
    proof (cases "match_ids_by_puuid c puuid m ARAM_QUEUE_ID")
      case (Inl e)
      with r show ?thesis by (simp add: count_exhaust_for_player_def)
    next
      case (Inr match_ids)
      show ?thesis
      proof (cases "truthy match_ids")
        case False
        with r Inr show ?thesis by (simp add: count_exhaust_for_player_def)
      next
        case True
        with r Inr obtain ms where "count_loop c puuid ms 0 0 = Inr (used, examined)"
          by (auto simp: count_exhaust_for_player_def split: sum.splits)
        from count_loop_bounds [OF this] show ?thesis by simp
      qed
    qed
    then show "0 \<le> used" "used \<le> examined" by simp_all
  qed
qed

theorem count_exhaust_tally_witness:
  "match_ids_by_puuid sample_client (JStr ''P1'') 20 ARAM_QUEUE_ID
     = Inr (JList [JStr ''M1'', JStr ''M2'', JStr ''M3'']) \<and>
   match_by_id sample_client (JStr ''M1'') = Inr match_m1 \<and> well_formed_match match_m1 \<and>
   match_by_id sample_client (JStr ''M2'') = Inr match_m2 \<and> well_formed_match match_m2 \<and>
   match_by_id sample_client (JStr ''M3'') = Inr match_m3 \<and> well_formed_match match_m3 \<and>
   count_exhaust_for_player sample_client (JStr ''P1'') 20 = Inr (1, 2) \<and>
   match_ids_by_puuid sample_client (JStr ''P2'') 20 ARAM_QUEUE_ID = Inr (JList []) \<and>
   count_exhaust_for_player sample_client (JStr ''P2'') 20 = Inr (0, 0) \<and>
   (0::int) \<le> 1 \<and> (1::int) \<le> 2"
proof -
  have ids: "match_ids_by_puuid sample_client (JStr ''P1'') 20 ARAM_QUEUE_ID
     = Inr (JList [JStr ''M1'', JStr ''M2'', JStr ''M3''])"
    by (simp add: sample_client_def)
  have m1: "match_by_id sample_client (JStr ''M1'') = Inr match_m1"
    and m2: "match_by_id sample_client (JStr ''M2'') = Inr match_m2"
    and m3: "match_by_id sample_client (JStr ''M3'') = Inr match_m3"
    by (simp_all add: sample_client_def)
  have w1: "well_formed_match match_m1" and w2: "well_formed_match match_m2"
    and w3: "well_formed_match match_m3"
    by (simp_all add: well_formed_match_def is_dict_def sample_matches)
  have wf: "\<forall>mid\<in>set [JStr ''M1'', JStr ''M2'', JStr ''M3''].
      \<exists>data. match_by_id sample_client mid = Inr data \<and> well_formed_match data"
    using m1 m2 m3 w1 w2 w3 by simp
  have e1: "player_entry ''P1'' match_m1 = Some [(''puuid'', JStr ''P1''), (''summoner1Id'', JNum 3), (''summoner2Id'', JNum 4)]"
    and e2: "player_entry ''P1'' match_m2 = Some [(''puuid'', JStr ''P1''), (''summoner1Id'', JNum 4), (''summoner2Id'', JNum 32)]"
    and e3: "player_entry ''P1'' match_m3 = None"
    by (simp_all add: player_entry_def sample_matches)
  have f: "found_entries sample_client ''P1'' [JStr ''M1'', JStr ''M2'', JStr ''M3''] =
      [[(''puuid'', JStr ''P1''), (''summoner1Id'', JNum 3), (''summoner2Id'', JNum 4)],
       [(''puuid'', JStr ''P1''), (''summoner1Id'', JNum 4), (''summoner2Id'', JNum 32)]]"
    by (simp add: found_entries_def List.map_filter_simps m1 m2 m3 e1 e2 e3)
  have ids2: "match_ids_by_puuid sample_client (JStr ''P2'') 20 ARAM_QUEUE_ID = Inr (JList [])"
    by (simp add: sample_client_def)
  note t = count_exhaust_tally [where c = sample_client and pid = "''P1''" and m = 20
      and mids = "[JStr ''M1'', JStr ''M2'', JStr ''M3'']" and puuid = "JStr ''P2''"
      and used = 0 and examined = 0]
  have r1: "count_exhaust_for_player sample_client (JStr ''P1'') 20 = Inr (1, 2)"
    using t ids wf by (simp add: f took_exhaust_def)
  have r2: "count_exhaust_for_player sample_client (JStr ''P2'') 20 = Inr (0, 0)"
    using t ids2 by blast
  from ids m1 w1 m2 w2 m3 w3 r1 ids2 r2 show ?thesis by simp
qed

section \<open>Properties of \<^verbatim>\<open>print_leaderboard\<close>\<close>

lemma insort_key_map:
  "insort_key k (g x) (map g ys) = map g (insort_key (\<lambda>y. k (g y)) x ys)"
  by (induction ys) auto

lemma sort_key_map: "sort_key k (map g xs) = map g (sort_key (\<lambda>y. k (g y)) xs)"
  by (induction xs) (auto simp: insort_key_map)

lemma sort_key_row_ok:
  "divides_ok U r \<Longrightarrow> sort_key_row U r = Inr (ex_count r, ratio U r)"
  by (auto simp: divides_ok_def sort_key_row_def ex_count_def ratio_def split: sum.splits)

lemma sort_keys_ok:
  "list_all (divides_ok U) rows \<Longrightarrow> sort_keys U rows = Inr (map (\<lambda>r. (ex_count r, ratio U r)) rows)"
  by (induction rows) (auto simp: sort_key_row_ok)

lemma sorted_rows_ranked:
  assumes "list_all (divides_ok U) rows"
  shows "sorted_rows U rows = Inr (ranked U rows)"
proof -
  let ?k = "\<lambda>r. (ex_count r, ratio U r)"
  let ?g = "\<lambda>r. (?k r, r)"
  have z: "zip (map ?k rows) rows = map ?g rows" by (induction rows) auto
  have "rev (map ?g rows) = map ?g (rev rows)" by (simp add: rev_map)
  then have "sort_key fst (rev (map ?g rows)) = map ?g (sort_key ?k (rev rows))"
    by (simp add: sort_key_map)
  then have "map snd (rev (sort_key fst (rev (map ?g rows)))) = rev (sort_key ?k (rev rows))"
    by (simp add: rev_map [symmetric] o_def)
  then show ?thesis
    by (simp add: sorted_rows_def sort_keys_ok [OF assms] z ranked_def)
qed

lemma ranked_mset: "mset (ranked U rows) = mset rows"
  by (simp add: ranked_def)

lemma ranked_descending:
  "sorted_wrt (\<lambda>a b. ex_count a > ex_count b \<or> (ex_count a = ex_count b \<and> ratio U a \<ge> ratio U b))
     (ranked U rows)"
proof -
  let ?k = "\<lambda>r. (ex_count r, ratio U r)"
  have "sorted (map ?k (sort_key ?k (rev rows)))" by (rule sorted_sort_key)
  then have "sorted_wrt (\<lambda>x y. ?k x \<le> ?k y) (sort_key ?k (rev rows))"
    by (simp add: sorted_map)
  then have "sorted_wrt (\<lambda>a b. ?k b \<le> ?k a) (ranked U rows)"
    by (simp add: ranked_def sorted_wrt_rev)
  moreover have "?k b \<le> ?k a \<longleftrightarrow>
      ex_count a > ex_count b \<or> (ex_count a = ex_count b \<and> ratio U a \<ge> ratio U b)" for a b
    by (auto simp: less_eq_prod_def)
  ultimately show ?thesis by simp
qed

lemma display_rows_tail:
  "map (\<lambda>(i, name, y). (if i = 0 then JStr (''WINNER: '' @ py_format B name) else name, y))
     (enumerate (Suc n) xs) = xs"
  by (induction xs arbitrary: n) auto

lemma display_rows_Cons:
  "display_rows B ((name, ex_cnt, tot) # rest) = (JStr (''WINNER: '' @ py_format B name), ex_cnt, tot) # rest"
  by (simp add: display_rows_def display_rows_tail del: append.simps)

lemma display_rows_Nil: "display_rows B [] = []"
  by (simp add: display_rows_def)

lemma display_rows_strings:
  "list_all (\<lambda>r. is_str (fst r)) srows \<Longrightarrow> list_all (\<lambda>r. is_str (fst r)) (display_rows B srows)"
proof (cases srows)
  case Nil
  then show ?thesis by (simp add: display_rows_Nil)
next
  case (Cons r rest)
  obtain n x t where "r = (n, x, t)" by (cases r)
  with Cons show "list_all (\<lambda>r. is_str (fst r)) srows \<Longrightarrow> ?thesis"
    by (simp add: display_rows_Cons is_str_def del: append.simps)
qed

lemma display_width_str: "is_str v \<Longrightarrow> display_width U v = Inr (width_of U v)"
  by (cases v) (auto simp: is_str_def display_width_def width_of_def)

lemma display_widths_strings:
  "list_all (\<lambda>r. is_str (fst r)) drows \<Longrightarrow>
   display_widths U drows = Inr (map (\<lambda>r. width_of U (fst r)) drows)"
  by (induction drows) (auto simp: display_width_str)

lemma name_width_strings:
  "list_all (\<lambda>r. is_str (fst r)) drows \<Longrightarrow> name_width U drows = Inr (name_w_of U drows)"
  by (simp add: name_width_def name_w_of_def display_widths_strings display_width_str is_str_def)

lemma pad_display_str:
  "is_str v \<Longrightarrow>
   pad_display U v w = Inr (JStr (name_text v @ replicate (w - width_of U v) CHR '' ''))"
  by (cases v) (auto simp: is_str_def pad_display_def display_width_str name_text_def)

lemma print_rows_strings:
  "list_all (\<lambda>r. is_str (fst r)) drows \<Longrightarrow>
   print_rows B U w rule drows = (map (row_text B U w) drows @ [rule], None)"
  by (induction drows)
    (auto simp: pad_display_str table_line_def row_text_def py_format_def Let_def)

lemma list_all_perm:
  "mset xs = mset ys \<Longrightarrow> list_all P xs = list_all P ys"
  by (metis list_all_iff set_mset_mset)

lemma print_leaderboard_strings:
  assumes "list_all (\<lambda>r. is_str (fst r)) rows" "list_all (divides_ok U) rows"
  shows "print_leaderboard B U rows =
     (title # rule_of (name_w_of U (display_rows B (ranked U rows))) #
        header_text U (name_w_of U (display_rows B (ranked U rows))) #
        rule_of (name_w_of U (display_rows B (ranked U rows))) #
        map (row_text B U (name_w_of U (display_rows B (ranked U rows)))) (display_rows B (ranked U rows)) @
        [rule_of (name_w_of U (display_rows B (ranked U rows)))],
      None)"
proof -
  have "list_all (\<lambda>r. is_str (fst r)) (ranked U rows)"
    using assms(1) list_all_perm [OF ranked_mset] by blast
  then have d: "list_all (\<lambda>r. is_str (fst r)) (display_rows B (ranked U rows))"
    by (rule display_rows_strings)
  have h: "is_str (JStr header_player)" by (simp add: is_str_def)
  show ?thesis
    by (simp add: print_leaderboard_def sorted_rows_ranked [OF assms(2)] name_width_strings [OF d]
        pad_display_str [OF h] print_rows_strings [OF d] Let_def table_line_def header_text_def
        rule_of_def py_format_def name_text_def)
qed

lemma row_text_no_data:
  "row_text B U w (JStr n, 0, 0) =
     n @ replicate (w - width_of U (JStr n)) CHR '' '' @ ''  '' @ rjust ''0'' exhaust_w @ ''  '' @
     rjust no_data_mark pct_w @ ''  '' @ rjust ''0'' games_w"
proof -
  have "str_int 0 = ''0''" by code_simp
  then show ?thesis by (simp add: row_text_def name_text_def format_pct_def)
qed

lemma sample_ranked:
  "ranked sample_stdlib sample_rows =
     [(JStr ''Cy'', 3, 4), (JStr ''Ann'', 1, 2), (JStr ''Di'', 1, 4), (JStr ''Bo'', 0, 0)]"
  by (simp add: ranked_def sample_rows_def sample_stdlib_def ex_count_def ratio_def less_eq_prod_def)

lemma sample_print:
  "print_leaderboard sample_builtins sample_stdlib sample_rows =
     ([title,
       ''--------------------------------------'',
       ''Player      Exhausts  % Exhaust  Games'',
       ''--------------------------------------'',
       ''WINNER: Cy         3        75%      4'',
       ''Ann                1        50%      2'',
       ''Di                 1        25%      4'',
       ''Bo                 0          '' @ no_data_mark @ ''      0'',
       ''--------------------------------------''],
      None)"
  by code_simp

text \<open>
  Claim C9. For rows whose names are strings and whose quotients are floats,
  \<^verbatim>\<open>sorted\<close> gives the rows in descending order of the Exhaust count and, among equal
  counts, of the ratio of count to games as the code divides them (0 for zero games).
  \<^verbatim>\<open>print_leaderboard\<close> returns after printing the title, the column titles and one
  line for every sorted row between rules: the first sorted row with \<^verbatim>\<open>WINNER: \<close> before
  its name, the others with their names unchanged. The line of a row \<open>(0, 0)\<close> is
  printed, with the marker for no data as its percentage.
\<close>

theorem leaderboard_order_and_marks:
  fixes B U rows
  defines "w \<equiv> name_w_of U (display_rows B (ranked U rows))"
  assumes "list_all (\<lambda>r. is_str (fst r)) rows" "list_all (divides_ok U) rows"
  shows "sorted_rows U rows = Inr (ranked U rows) \<and>
   mset (ranked U rows) = mset rows \<and>
   sorted_wrt (\<lambda>a b. ex_count a > ex_count b \<or> (ex_count a = ex_count b \<and> ratio U a \<ge> ratio U b))
     (ranked U rows) \<and>
   print_leaderboard B U rows =
     (title # rule_of w # header_text U w # rule_of w #
        map (row_text B U w) (display_rows B (ranked U rows)) @ [rule_of w],
      None) \<and>
   (ranked U rows = (JStr n, ex_cnt, tot) # rest \<longrightarrow>
      display_rows B (ranked U rows) = (JStr (''WINNER: '' @ n), ex_cnt, tot) # rest) \<and>
   (ranked U rows = [] \<longrightarrow> display_rows B (ranked U rows) = []) \<and>
   row_text B U w (JStr m, 0, 0) =
     m @ replicate (w - width_of U (JStr m)) CHR '' '' @ ''  '' @ rjust ''0'' exhaust_w @ ''  '' @
     rjust no_data_mark pct_w @ ''  '' @ rjust ''0'' games_w \<and>
   ((JStr m, 0, 0) \<in> set rows \<longrightarrow>
      row_text B U w (JStr m, 0, 0) \<in> set (fst (print_leaderboard B U rows)) \<or>
      row_text B U w (JStr (''WINNER: '' @ m), 0, 0) \<in> set (fst (print_leaderboard B U rows)))"
proof (intro conjI impI)
  show "sorted_rows U rows = Inr (ranked U rows)" by (rule sorted_rows_ranked [OF assms(3)])
  show "mset (ranked U rows) = mset rows" by (rule ranked_mset)
  show "sorted_wrt (\<lambda>a b. ex_count a > ex_count b \<or> (ex_count a = ex_count b \<and> ratio U a \<ge> ratio U b))
     (ranked U rows)" by (rule ranked_descending)
  show pl: "print_leaderboard B U rows =
     (title # rule_of w # header_text U w # rule_of w #
        map (row_text B U w) (display_rows B (ranked U rows)) @ [rule_of w],
      None)"
    unfolding w_def by (rule print_leaderboard_strings [OF assms(2,3)])
  show "display_rows B (ranked U rows) = (JStr (''WINNER: '' @ n), ex_cnt, tot) # rest"
    if "ranked U rows = (JStr n, ex_cnt, tot) # rest"
    using that by (simp add: display_rows_Cons py_format_def del: append.simps)
  show "display_rows B (ranked U rows) = []" if "ranked U rows = []"
    using that by (simp add: display_rows_Nil)
  show "row_text B U w (JStr m, 0, 0) =
     m @ replicate (w - width_of U (JStr m)) CHR '' '' @ ''  '' @ rjust ''0'' exhaust_w @ ''  '' @
     rjust no_data_mark pct_w @ ''  '' @ rjust ''0'' games_w"
    by (rule row_text_no_data)
  show "row_text B U w (JStr m, 0, 0) \<in> set (fst (print_leaderboard B U rows)) \<or>
      row_text B U w (JStr (''WINNER: '' @ m), 0, 0) \<in> set (fst (print_leaderboard B U rows))"
    if "(JStr m, 0, 0) \<in> set rows"
  proof -
    from that have mem: "(JStr m, 0, 0) \<in> set (ranked U rows)"
      using ranked_mset [of U rows] by (metis set_mset_mset)
    then obtain r rest where c: "ranked U rows = r # rest" by (cases "ranked U rows") auto
    obtain n x t where r: "r = (n, x, t)" by (cases r)
    have d: "display_rows B (ranked U rows) = (JStr (''WINNER: '' @ py_format B n), x, t) # rest"
      by (simp add: c r display_rows_Cons del: append.simps)
    from mem c r have "(n = JStr m \<and> x = 0 \<and> t = 0) \<or> (JStr m, 0, 0) \<in> set rest" by auto
    then have "(JStr m, 0, 0) \<in> set (display_rows B (ranked U rows)) \<or>
        (JStr (''WINNER: '' @ m), 0, 0) \<in> set (display_rows B (ranked U rows))"
      by (auto simp: d py_format_def)
    then have "row_text B U w (JStr m, 0, 0) \<in> row_text B U w ` set (display_rows B (ranked U rows)) \<or>
        row_text B U w (JStr (''WINNER: '' @ m), 0, 0) \<in> row_text B U w ` set (display_rows B (ranked U rows))"
      by blast
    then show ?thesis by (auto simp: pl)
  qed
qed

theorem leaderboard_order_and_marks_witness:
  "list_all (\<lambda>r. is_str (fst r)) sample_rows \<and> list_all (divides_ok sample_stdlib) sample_rows \<and>
   sorted_rows sample_stdlib sample_rows =
     Inr [(JStr ''Cy'', 3, 4), (JStr ''Ann'', 1, 2), (JStr ''Di'', 1, 4), (JStr ''Bo'', 0, 0)] \<and>
   display_rows sample_builtins (ranked sample_stdlib sample_rows) =
     [(JStr ''WINNER: Cy'', 3, 4), (JStr ''Ann'', 1, 2), (JStr ''Di'', 1, 4), (JStr ''Bo'', 0, 0)] \<and>
   (JStr ''Bo'', 0, 0) \<in> set sample_rows \<and>
   print_leaderboard sample_builtins sample_stdlib sample_rows =
     ([title,
       ''--------------------------------------'',
       ''Player      Exhausts  % Exhaust  Games'',
       ''--------------------------------------'',
       ''WINNER: Cy         3        75%      4'',
       ''Ann                1        50%      2'',
       ''Di                 1        25%      4'',
       ''Bo                 0          '' @ no_data_mark @ ''      0'',
       ''--------------------------------------''],
      None)"
proof -
  have h1: "list_all (\<lambda>r. is_str (fst r)) sample_rows"
    by (simp add: sample_rows_def is_str_def)
  have h2: "list_all (divides_ok sample_stdlib) sample_rows"
    by (simp add: sample_rows_def divides_ok_def sample_stdlib_def)
  have m: "(JStr ''Bo'', 0, 0) \<in> set sample_rows" by (simp add: sample_rows_def)
  note t = leaderboard_order_and_marks [OF h1 h2, where B = sample_builtins and n = "''Cy''"
      and ex_cnt = 3 and tot = 4
      and rest = "[(JStr ''Ann'', 1, 2), (JStr ''Di'', 1, 4), (JStr ''Bo'', 0, 0)]" and m = "''Bo''"]
  have s: "sorted_rows sample_stdlib sample_rows =
     Inr [(JStr ''Cy'', 3, 4), (JStr ''Ann'', 1, 2), (JStr ''Di'', 1, 4), (JStr ''Bo'', 0, 0)]"
    using t by (simp only: sample_ranked)
  have d: "display_rows sample_builtins (ranked sample_stdlib sample_rows) =
     [(JStr ''WINNER: Cy'', 3, 4), (JStr ''Ann'', 1, 2), (JStr ''Di'', 1, 4), (JStr ''Bo'', 0, 0)]"
  proof -
    from t have "ranked sample_stdlib sample_rows =
        (JStr ''Cy'', 3, 4) # [(JStr ''Ann'', 1, 2), (JStr ''Di'', 1, 4), (JStr ''Bo'', 0, 0)] \<longrightarrow>
      display_rows sample_builtins (ranked sample_stdlib sample_rows) =
        (JStr (''WINNER: '' @ ''Cy''), 3, 4) # [(JStr ''Ann'', 1, 2), (JStr ''Di'', 1, 4), (JStr ''Bo'', 0, 0)]"
      by blast
    then show ?thesis by (simp add: sample_ranked)
  qed
  from h1 h2 s d m sample_print show ?thesis by blast
qed

section \<open>Properties of \<^verbatim>\<open>run\<close>\<close>



lemma sample_count_p1: "count_exhaust_for_player sample_client (JStr ''P1'') 20 = Inr (1, 2)"
  by (simp add: count_exhaust_for_player_def py_iter_def examine_match_def py_get_def
      EXHAUST_ID_def sample_matches)

lemma sample_count_p2: "count_exhaust_for_player sample_client (JStr ''P2'') 20 = Inr (0, 0)"
  by (simp add: count_exhaust_for_player_def sample_client_def)


lemma sample_resolve:
  "ensure_puuid sample_client (JObj kvs_with_puuid) = Inr (JStr ''P9'', JStr ''Cy'')"
  "ensure_puuid sample_client (JObj kvs_empty_puuid) = Inr (JStr ''P1'', JStr ''Ann'')"
  "ensure_puuid sample_client (JObj kvs_no_ids) = Inl (RuntimeError missing_ids_message)"
  "ensure_puuid sample_client (JObj kvs_p2) = Inr (JStr ''P2'', JStr ''Bo#1'')"
  by (simp_all add: sample_eval)


lemma sample_table_raises:
  "print_leaderboard sample_builtins sample_stdlib [(JStr ''Ann'', 1, 2), (JNull, 0, 0)]
     = ([], Some TypeError)"
  by code_simp

text \<open>
  The exception of \<^verbatim>\<open>print_leaderboard\<close> is not caught: a display name that is a number,
  in a row that is not the first, ends the run with \<^verbatim>\<open>TypeError\<close> before the table.
\<close>

lemma run_raises_on_name_that_is_no_string:
  "run sample_builtins sample_stdlib sample_client (JList [JObj kvs_empty_puuid, JObj kvs_number_name]) =
     ([Stdout_found (JList [JObj kvs_empty_puuid, JObj kvs_number_name]),
       Stdout_player 1 (JStr ''Ann'') 1 2, Sleep_between (1 / 20),
       Stdout_player 2 (JNum 5) 0 0, Sleep_between (1 / 20)],
      Raised TypeError)"
proof -
  have e: "ensure_puuid sample_client (JObj kvs_number_name) = Inr (JStr ''P2'', JNum 5)"
    by (simp add: sample_eval kvs_number_name_def)
  have p: "print_leaderboard sample_builtins sample_stdlib [(JStr ''Ann'', 1, 2), (JNum 5, 0, 0)]
      = ([], Some TypeError)"
    by code_simp
  show ?thesis
    by (simp add: run_def py_sized_def py_iter_def Let_def sample_resolve e sample_count_p1
        sample_count_p2 MAX_MATCHES_PER_PLAYER_def SLEEP_BETWEEN_PLAYERS_def report_def p)
qed



end
